theory Spec2Isabelle
  imports Main
begin

section \<open>Strings\<close>

text \<open>
  Python strings are modelled as \<open>string\<close>, one \<open>char\<close> per character.
  \<open>split_sp\<close> is \<^verbatim>\<open>s.split(' ')\<close>: it cuts at every single space and keeps the empty
  pieces, so the result is never empty. \<open>join_sp\<close> is \<^verbatim>\<open>' '.join(xs)\<close>.
\<close>

fun split_from :: "string \<Rightarrow> string \<Rightarrow> string list" where
  "split_from acc [] = [rev acc]"
| "split_from acc (c # cs) =
     (if c = CHR '' '' then rev acc # split_from [] cs else split_from (c # acc) cs)"

definition split_sp :: "string \<Rightarrow> string list" where
  "split_sp s = split_from [] s"

fun join_sp :: "string list \<Rightarrow> string" where
  "join_sp [] = []"
| "join_sp [x] = x"
| "join_sp (x # y # ys) = x @ '' '' @ join_sp (y # ys)"

text \<open>\<^verbatim>\<open>message.text.split(' ')[1:]\<close>: the slice of a one-element list is empty.\<close>

definition args_of :: "string \<Rightarrow> string list" where
  "args_of t = tl (split_sp t)"

text \<open>\<^verbatim>\<open>str(n)\<close> for a Python integer, in decimal.\<close>

fun str_nat :: "nat \<Rightarrow> string" where
  "str_nat n =
     (if n < 10 then [''0123456789'' ! n]
      else str_nat (n div 10) @ [''0123456789'' ! (n mod 10)])"

declare str_nat.simps [simp del]

definition str_int :: "int \<Rightarrow> string" where
  "str_int i = (if i < 0 then ''-'' @ str_nat (nat (- i)) else str_nat (nat i))"

text \<open>An optional string inside an f-string: \<^verbatim>\<open>None\<close> prints as \<open>None\<close>.\<close>

definition str_opt :: "string option \<Rightarrow> string" where
  "str_opt x = (case x of None \<Rightarrow> ''None'' | Some v \<Rightarrow> v)"

text \<open>\<^verbatim>\<open>x or ''\<close> for an optional string.\<close>

definition or_empty :: "string option \<Rightarrow> string" where
  "or_empty x = (case x of None \<Rightarrow> [] | Some v \<Rightarrow> v)"

text \<open>
  \<^verbatim>\<open>s.strip()\<close>: the characters below 256 for which \<^verbatim>\<open>str.isspace\<close> holds are
  9 to 13, 28 to 32, 133 and 160.
\<close>

definition isspace :: "char \<Rightarrow> bool" where
  "isspace c =
     (c \<in> set [CHR 0x09, CHR 0x0A, CHR 0x0B, CHR 0x0C, CHR 0x0D, CHR 0x1C, CHR 0x1D,
                CHR 0x1E, CHR 0x1F, CHR 0x20, CHR 0x85, CHR 0xA0])"

definition strip :: "string \<Rightarrow> string" where
  "strip s = rev (dropWhile isspace (rev (dropWhile isspace s)))"

section \<open>Data model\<close>

text \<open>The sender of a message (\<^verbatim>\<open>message.from_user\<close>).\<close>

record user =
  u_id :: int
  u_username :: "string option"
  u_first_name :: string
  u_last_name :: "string option"

text \<open>
  An incoming message. \<open>date\<close> is the message's time in seconds (Telegram dates are whole
  Unix seconds). \<open>reply_photo\<close> is \<^verbatim>\<open>message.reply_to_message.photo\<close> as the list of
  its sizes' file ids, \<open>None\<close> when the message replies to nothing.
\<close>

record message =
  from_user :: user
  msg_text :: string
  date :: int
  reply_photo :: "string list option"

text \<open>Documents of the four collections.\<close>

record user_doc =
  doc_user_id :: int
  doc_username :: "string option"
  doc_full_name :: string

record group_doc =
  doc_group_id :: int
  doc_title :: string

record subscription_doc =
  sub_user_id :: int
  sub_plan :: string

record gift_code_doc =
  gift_code :: string
  gift_plan :: string

text \<open>
  Where a task stands between two runs of the event loop: created and not yet run, or
  suspended in one of the awaits of its coroutine. The number is the loop index \<open>i\<close> of
  \<^verbatim>\<open>generate_proai_task\<close> (0 in \<^verbatim>\<open>generate_image_task\<close>, which has no loop), the
  string the image url.
\<close>

datatype point =
  Created
| Sending_photo nat string \<comment> \<open>in \<^verbatim>\<open>await bot.send_photo(user.id, image_url)\<close>\<close>
| Logging_photo nat string \<comment> \<open>in the send of \<^verbatim>\<open>await log_message(user, user_input, image_url)\<close>\<close>
| Sleeping nat \<comment> \<open>in \<^verbatim>\<open>await asyncio.sleep(5)\<close>\<close>
| Sending_notice nat \<comment> \<open>in \<^verbatim>\<open>await bot.send_message(user.id, response_text)\<close>\<close>
| Logging_notice nat \<comment> \<open>in the send of \<^verbatim>\<open>await log_message(user, user_input, response_text)\<close>\<close>

text \<open>
  A coroutine handed to \<^verbatim>\<open>asyncio.create_task\<close>: which task function, and its
  arguments \<open>user\<close>, \<open>user_input\<close>, \<open>prompt\<close>.
\<close>

datatype coroutine =
  Generate_image_task user string string
| Generate_proai_task user string string

text \<open>
  The process state: the three module-level dictionaries, the global
  \<^verbatim>\<open>LOG_CHANNEL_ID\<close>, the four collections, and the event loop's tasks. A task
  handle is the position of its coroutine in \<open>spawned\<close>; \<open>done_tasks\<close> holds the
  handles for which \<^verbatim>\<open>task.done()\<close> is true, \<open>cancel_requested\<close> those on which
  \<^verbatim>\<open>task.cancel()\<close> has been called.
\<close>

record state =
  last_ai_use :: "int \<rightharpoonup> int"
  user_images :: "int \<rightharpoonup> string"
  user_tasks :: "int \<rightharpoonup> nat"
  LOG_CHANNEL_ID :: "string option"
  users_collection :: "user_doc list"
  groups_collection :: "group_doc list"
  subscriptions_collection :: "subscription_doc list"
  gift_codes_collection :: "gift_code_doc list"
  spawned :: "coroutine list"
  done_tasks :: "nat set"
  cancel_requested :: "nat set"

text \<open>What the image endpoint answers to one request.\<close>

datatype response =
  Data string \<comment> \<open>a body with \<^verbatim>\<open>'data'\<close>; the url of its first entry\<close>
| No_data string \<comment> \<open>a body without \<^verbatim>\<open>'data'\<close>, printed\<close>
| Raised string \<comment> \<open>the request or the decoding raised; the exception, printed\<close>

text \<open>
  What the handlers do not decide: the configured owner, the image endpoint, whether a
  broadcast delivery raises (\<open>None\<close>: delivered, \<open>Some e\<close>: the exception), the
  file url Telegram gives for a file id, the speech endpoint (\<open>Inl e\<close>: it raised), and
  the value of \<^verbatim>\<open>generate_code()\<close>, a function \<^verbatim>\<open>bot.py\<close> calls and does not define.
\<close>

record env =
  BOT_OWNER_ID :: int
  provider :: "string \<Rightarrow> response"
  send_error :: "int \<Rightarrow> string \<Rightarrow> string option"
  get_file_url :: "string \<Rightarrow> string"
  synthesize_speech :: "string \<Rightarrow> string + string"
  generate_code :: string

text \<open>The target of \<^verbatim>\<open>bot.send_message\<close>: a numeric id, or the log channel's string.\<close>

datatype chat = Chat_id int | Chat_name string

text \<open>
  The calls a handler or a task makes to the outside, in order. Outside the broadcast
  loop and the provider clients, where the source catches them, calls are taken to
  return normally.
\<close>

datatype event =
  Reply string \<comment> \<open>\<^verbatim>\<open>message.reply(text)\<close>\<close>
| Reply_html string \<comment> \<open>\<^verbatim>\<open>message.reply(text, parse_mode=ParseMode.HTML)\<close>\<close>
| Reply_photo string \<comment> \<open>\<^verbatim>\<open>message.reply_photo(url)\<close>\<close>
| Send_message chat string \<comment> \<open>\<^verbatim>\<open>bot.send_message(chat, text)\<close>\<close>
| Send_photo int string \<comment> \<open>\<^verbatim>\<open>bot.send_photo(user.id, url)\<close>\<close>
| Send_audio int string string \<comment> \<open>\<^verbatim>\<open>bot.send_audio(user.id, file, title)\<close>\<close>
| Write_file string string \<comment> \<open>file name and content\<close>
| Request string \<comment> \<open>the POST of \<^verbatim>\<open>generate_image\<close>, with its prompt\<close>
| Get_file_url string \<comment> \<open>\<^verbatim>\<open>bot.get_file_url(file_id)\<close>\<close>
| Polly string \<comment> \<open>\<^verbatim>\<open>polly_client.synthesize_speech(Text=...)\<close>\<close>
| Log_error string \<comment> \<open>\<^verbatim>\<open>log.error\<close>\<close>
| Sleep nat \<comment> \<open>\<^verbatim>\<open>asyncio.sleep\<close>\<close>

section \<open>Helpers of the source\<close>

text \<open>Python truthiness of a string, and of an optional string.\<close>

definition truthy :: "string option \<Rightarrow> bool" where
  "truthy x = (case x of None \<Rightarrow> False | Some v \<Rightarrow> v \<noteq> [])"

definition generate_image :: "env \<Rightarrow> string \<Rightarrow> string option \<times> event list" where
  "generate_image e prompt =
     (case provider e prompt of
        Data url \<Rightarrow> (Some url, [Request prompt])
      | No_data r \<Rightarrow> (None, [Request prompt, Log_error (''Error in response: '' @ r)])
      | Raised x \<Rightarrow> (None, [Request prompt, Log_error (''Error generating image: '' @ x)]))"

text \<open>The line \<^verbatim>\<open>log_message\<close> builds from the user, the input and the response.\<close>

definition log_text :: "user \<Rightarrow> string \<Rightarrow> string \<Rightarrow> string" where
  "log_text user user_input bot_response =
     (let user_info =
            ''User ID: '' @ str_int (u_id user) @ ''\<newline>Username: @''
            @ str_opt (u_username user) @ ''\<newline>Name: '' @ u_first_name user
            @ '' '' @ or_empty (u_last_name user)
      in user_info @ ''\<newline>User input: '' @ user_input
         @ ''\<newline>Bot response: '' @ bot_response)"

text \<open>\<^verbatim>\<open>if LOG_CHANNEL_ID:\<close> holds for a channel that is set and not the empty string.\<close>

definition log_message :: "state \<Rightarrow> user \<Rightarrow> string \<Rightarrow> string \<Rightarrow> event list" where
  "log_message s user user_input bot_response =
     (case LOG_CHANNEL_ID s of
        None \<Rightarrow> []
      | Some c \<Rightarrow>
          if c = [] then []
          else [Send_message (Chat_name c) (log_text user user_input bot_response)])"

definition is_owner :: "env \<Rightarrow> int \<Rightarrow> bool" where
  "is_owner e user_id = (user_id = BOT_OWNER_ID e)"

text \<open>
  \<^verbatim>\<open>asyncio.create_task(c)\<close>: the coroutine joins the spawned tasks and the new task's
  handle, its position there, is returned. The caller stores it with
  \<^verbatim>\<open>user_tasks[user_id] = task\<close>.
\<close>

definition create_task :: "coroutine \<Rightarrow> state \<Rightarrow> nat \<times> state" where
  "create_task c s = (length (spawned s), s\<lparr>spawned := spawned s @ [c]\<rparr>)"

section \<open>The /ai command\<close>

definition please_wait :: string where
  "please_wait = ''Please wait for 5 seconds before using the /ai command again.''"

definition ai_usage :: string where
  "ai_usage = ''Please provide a prompt after the /ai command.''"

definition ai_command :: "env \<Rightarrow> message \<Rightarrow> state \<Rightarrow> state \<times> event list" where
  "ai_command e message s =
     (let user = from_user message;
          user_input = msg_text message;
          user_id = u_id user;
          current_time = date message
      in if (case last_ai_use s user_id of
               None \<Rightarrow> False
             | Some last_time \<Rightarrow> current_time - last_time < 5)
         then (s, [Reply please_wait] @ log_message s user user_input please_wait)
         else
           (let s1 = s\<lparr>last_ai_use := (last_ai_use s)(user_id \<mapsto> current_time)\<rparr>;
                user_prompt = join_sp (args_of (msg_text message))
            in if user_prompt \<noteq> [] then
                 (let (task, s2) =
                        create_task (Generate_image_task user user_input user_prompt) s1
                  in (s2\<lparr>user_tasks := (user_tasks s2)(user_id \<mapsto> task)\<rparr>,
                      [Reply ''Generating image...'']))
               else
                 (let response_text = ai_usage
                  in (s1, [Reply response_text]
                          @ log_message s1 user user_input response_text))))"

text \<open>\<^verbatim>\<open>if x:\<close> on an optional string, keeping the value when it is truthy.\<close>

definition if_truthy :: "string option \<Rightarrow> string option" where
  "if_truthy x = (if truthy x then x else None)"

definition image_failure :: string where
  "image_failure =
     ''Sorry, there was an error generating the image. Please contact @AkhandanandTripathi to fix it.''"

text \<open>
  One run of \<^verbatim>\<open>generate_image_task\<close> by the event loop, from the point where it stands
  to its next await or to its end (\<open>None\<close>), when the await it was suspended in has
  returned. An event is recorded when the call is made. \<^verbatim>\<open>await log_message(...)\<close>
  suspends the task only when a log channel is configured at that moment; the last
  generated image is stored after it.
\<close>

definition generate_image_task ::
  "env \<Rightarrow> user \<Rightarrow> string \<Rightarrow> string \<Rightarrow> state \<Rightarrow> point
     \<Rightarrow> point option \<times> state \<times> event list" where
  "generate_image_task e user user_input prompt s at =
     (case at of
        Created \<Rightarrow>
          (let (image_url, ev) = generate_image e prompt
           in case if_truthy image_url of
                Some url \<Rightarrow> (Some (Sending_photo 0 url), s, ev @ [Send_photo (u_id user) url])
              | None \<Rightarrow>
                  (Some (Sending_notice 0), s,
                   ev @ [Send_message (Chat_id (u_id user)) image_failure]))
      | Sending_photo i url \<Rightarrow>
          (case log_message s user user_input url of
             [] \<Rightarrow> (None, s\<lparr>user_images := (user_images s)(u_id user \<mapsto> url)\<rparr>, [])
           | line # lines \<Rightarrow> (Some (Logging_photo i url), s, line # lines))
      | Logging_photo i url \<Rightarrow>
          (None, s\<lparr>user_images := (user_images s)(u_id user \<mapsto> url)\<rparr>, [])
      | Sending_notice i \<Rightarrow>
          (case log_message s user user_input image_failure of
             [] \<Rightarrow> (None, s, [])
           | line # lines \<Rightarrow> (Some (Logging_notice i), s, line # lines))
      | Logging_notice i \<Rightarrow> (None, s, [])
      | Sleeping i \<Rightarrow> (None, s, []))"

section \<open>The /proai command and its task\<close>

definition find_one_subscription :: "int \<Rightarrow> subscription_doc list \<Rightarrow> subscription_doc option" where
  "find_one_subscription user_id docs = find (\<lambda>d. sub_user_id d = user_id) docs"

definition need_redeem :: string where
  "need_redeem = ''You need to redeem a gift code to use the /proai command.''"

definition proai_usage :: string where
  "proai_usage = ''Please provide a prompt after the /proai command.''"

definition proai_command :: "env \<Rightarrow> message \<Rightarrow> state \<Rightarrow> state \<times> event list" where
  "proai_command e message s =
     (let user = from_user message;
          user_input = msg_text message;
          user_id = u_id user;
          refuse = (s, [Reply need_redeem] @ log_message s user user_input need_redeem)
      in case find_one_subscription user_id (subscriptions_collection s) of
           None \<Rightarrow> refuse
         | Some subscription \<Rightarrow>
             if sub_plan subscription = ''professional'' then
               (let user_prompt = join_sp (args_of (msg_text message))
                in if user_prompt \<noteq> [] then
                     (let (task, s1) =
                            create_task (Generate_proai_task user user_input user_prompt) s
                      in (s1\<lparr>user_tasks := (user_tasks s1)(user_id \<mapsto> task)\<rparr>,
                          [Reply ''Generating images...'']))
                   else
                     (let response_text = proai_usage
                      in (s, [Reply response_text]
                             @ log_message s user user_input response_text)))
             else refuse)"

text \<open>The prompt of step \<open>i\<close> of \<^verbatim>\<open>range(15)\<close>.\<close>

definition step_prompt :: "string \<Rightarrow> nat \<Rightarrow> string" where
  "step_prompt prompt i = prompt @ '' (image '' @ str_nat (i + 1) @ '' improving each time)''"

definition proai_failure :: string where
  "proai_failure =
     ''Sorry, there was an error generating one of the images. Please contact @AkhandanandTripathi to fix it.''"

text \<open>
  The body of the loop of \<^verbatim>\<open>generate_proai_task\<close> for index \<open>i\<close>, up to its first
  await: the request, then the photo or the failure notice.
\<close>

definition proai_loop :: "env \<Rightarrow> user \<Rightarrow> string \<Rightarrow> nat \<Rightarrow> point option \<times> event list" where
  "proai_loop e user prompt i =
     (let (image_url, ev) = generate_image e (step_prompt prompt i)
      in case if_truthy image_url of
           Some url \<Rightarrow> (Some (Sending_photo i url), ev @ [Send_photo (u_id user) url])
         | None \<Rightarrow>
             (Some (Sending_notice i),
              ev @ [Send_message (Chat_id (u_id user)) proai_failure]))"

text \<open>
  One run of \<^verbatim>\<open>generate_proai_task\<close> by the event loop, from the point where it stands
  to its next await or to its end (\<open>None\<close>), when the await it was suspended in has
  returned: after the photo its log line (an await only when a log channel is
  configured at that moment) and the sleep; after the sleep the next index of
  \<^verbatim>\<open>range(15)\<close>, if any; after the notice its log line and the \<^verbatim>\<open>break\<close>.
\<close>

definition generate_proai_task ::
  "env \<Rightarrow> user \<Rightarrow> string \<Rightarrow> string \<Rightarrow> state \<Rightarrow> point \<Rightarrow> point option \<times> event list" where
  "generate_proai_task e user user_input prompt s at =
     (case at of
        Created \<Rightarrow> proai_loop e user prompt 0
      | Sending_photo i url \<Rightarrow>
          (case log_message s user user_input url of
             [] \<Rightarrow> (Some (Sleeping i), [Sleep 5])
           | line # lines \<Rightarrow> (Some (Logging_photo i url), line # lines))
      | Logging_photo i url \<Rightarrow> (Some (Sleeping i), [Sleep 5])
      | Sleeping i \<Rightarrow> if Suc i < 15 then proai_loop e user prompt (Suc i) else (None, [])
      | Sending_notice i \<Rightarrow>
          (case log_message s user user_input proai_failure of
             [] \<Rightarrow> (None, [])
           | line # lines \<Rightarrow> (Some (Logging_notice i), line # lines))
      | Logging_notice i \<Rightarrow> (None, []))"

section \<open>The gift codes\<close>

definition no_permission :: string where
  "no_permission =
     ''You don't have permission to use this command. Please ask @AkhandanandTripathi to do it.''"

definition generate_command :: "env \<Rightarrow> message \<Rightarrow> state \<Rightarrow> state \<times> event list" where
  "generate_command e message s =
     (let user = from_user message;
          user_input = msg_text message
      in if is_owner e (u_id user) then
           (let code = generate_code e;
                s1 = s\<lparr>gift_codes_collection :=
                         gift_codes_collection s
                         @ [\<lparr>gift_code = code, gift_plan = ''professional''\<rparr>]\<rparr>;
                response_text = ''Generated gift code: '' @ code
            in (s1, [Reply response_text] @ log_message s1 user user_input response_text))
         else (s, [Reply no_permission] @ log_message s user user_input no_permission))"

text \<open>
  \<^verbatim>\<open>find_one_and_delete({'code': code})\<close>: the first document with the code, removed
  from the collection, or \<open>None\<close> and the collection as it was.
\<close>

fun find_one_and_delete ::
  "string \<Rightarrow> gift_code_doc list \<Rightarrow> gift_code_doc option \<times> gift_code_doc list" where
  "find_one_and_delete code [] = (None, [])"
| "find_one_and_delete code (d # ds) =
     (if gift_code d = code then (Some d, ds)
      else (let (r, ds') = find_one_and_delete code ds in (r, d # ds')))"

text \<open>
  \<^verbatim>\<open>update_one({'user_id': user_id}, {'$set': {'plan': plan}}, upsert=True)\<close>: the first
  document of the user gets the plan; with no such document, one is inserted.
\<close>

fun subscriptions_update_one ::
  "int \<Rightarrow> string \<Rightarrow> subscription_doc list \<Rightarrow> subscription_doc list" where
  "subscriptions_update_one user_id plan [] = [\<lparr>sub_user_id = user_id, sub_plan = plan\<rparr>]"
| "subscriptions_update_one user_id plan (d # ds) =
     (if sub_user_id d = user_id then d\<lparr>sub_plan := plan\<rparr> # ds
      else d # subscriptions_update_one user_id plan ds)"

definition redeem_success :: string where
  "redeem_success =
     ''You have successfully redeemed the code and upgraded to the professional plan.''"

definition redeem_invalid :: string where
  "redeem_invalid = ''Invalid or already redeemed gift code.''"

definition redeem_usage :: string where
  "redeem_usage = ''Usage: /redeem <gift_code>''"

definition redeem_command :: "env \<Rightarrow> message \<Rightarrow> state \<Rightarrow> state \<times> event list" where
  "redeem_command e message s =
     (let user = from_user message;
          user_input = msg_text message;
          args = args_of (msg_text message)
      in if length args = 1 then
           (let code = hd args;
                (gift, codes) = find_one_and_delete code (gift_codes_collection s);
                s1 = s\<lparr>gift_codes_collection := codes\<rparr>
            in case gift of
                 Some d \<Rightarrow>
                   (let s2 = s1\<lparr>subscriptions_collection :=
                                  subscriptions_update_one (u_id user) ''professional''
                                    (subscriptions_collection s1)\<rparr>
                    in (s2, [Reply redeem_success]
                            @ log_message s2 user user_input redeem_success))
               | None \<Rightarrow>
                   (s1, [Reply redeem_invalid]
                        @ log_message s1 user user_input redeem_invalid))
         else (s, [Reply redeem_usage] @ log_message s user user_input redeem_usage))"

section \<open>Owner commands\<close>

definition setlogchannel_usage :: string where
  "setlogchannel_usage = ''Usage: /setlogchannel <log_channel_id>''"

definition setlogchannel_command :: "env \<Rightarrow> message \<Rightarrow> state \<Rightarrow> state \<times> event list" where
  "setlogchannel_command e message s =
     (let user = from_user message;
          user_input = msg_text message
      in if is_owner e (u_id user) then
           (let args = args_of (msg_text message)
            in if length args = 1 then
                 (let s1 = s\<lparr>LOG_CHANNEL_ID := Some (hd args)\<rparr>;
                      response_text = ''Log channel set to '' @ hd args
                  in (s1, [Reply response_text]
                          @ log_message s1 user user_input response_text))
               else
                 (let response_text = setlogchannel_usage
                  in (s, [Reply response_text]
                         @ log_message s user user_input response_text)))
         else (s, [Reply no_permission] @ log_message s user user_input no_permission))"

definition not_capable :: string where
  "not_capable = ''Ummmm, you are not capable of it.''"

definition user_info_html :: "user_doc \<Rightarrow> string" where
  "user_info_html user_data =
     ''<b>User ID:</b> '' @ str_int (doc_user_id user_data)
     @ ''\<newline><b>Username:</b> @'' @ str_opt (doc_username user_data)
     @ ''\<newline><b>Name:</b> '' @ doc_full_name user_data
     @ ''\<newline><b>Permanent Link:</b> <a href='' @ [CHR 0x27] @ ''tg://user?id=''
     @ str_int (doc_user_id user_data) @ [CHR 0x27] @ ''>Open Chat</a>''"

fun users_loop :: "state \<Rightarrow> user \<Rightarrow> string \<Rightarrow> user_doc list \<Rightarrow> event list" where
  "users_loop s user user_input [] = []"
| "users_loop s user user_input (user_data # rest) =
     [Reply_html (user_info_html user_data)]
     @ log_message s user user_input (user_info_html user_data)
     @ users_loop s user user_input rest"

definition users_command :: "env \<Rightarrow> message \<Rightarrow> state \<Rightarrow> state \<times> event list" where
  "users_command e message s =
     (let user = from_user message;
          user_input = msg_text message
      in if is_owner e (u_id user) then
           (s, users_loop s user user_input (users_collection s))
         else (s, [Reply not_capable] @ log_message s user user_input not_capable))"

text \<open>
  One pass of a broadcast loop over the recipients' ids: every send is attempted, and
  a send that raises is logged and the loop goes on.
\<close>

fun broadcast_loop :: "env \<Rightarrow> string \<Rightarrow> int list \<Rightarrow> event list" where
  "broadcast_loop e broadcast_message [] = []"
| "broadcast_loop e broadcast_message (r # rest) =
     [Send_message (Chat_id r) broadcast_message]
     @ (case send_error e r broadcast_message of
          None \<Rightarrow> []
        | Some x \<Rightarrow>
            [Log_error (''Error sending message to '' @ str_int r @ '': '' @ x)])
     @ broadcast_loop e broadcast_message rest"

definition broadcast_sent :: string where
  "broadcast_sent = ''Broadcast message sent.''"

definition broadcast_usage :: string where
  "broadcast_usage = ''Usage: /broadcast <message>''"

definition broadcast_command :: "env \<Rightarrow> message \<Rightarrow> state \<Rightarrow> state \<times> event list" where
  "broadcast_command e message s =
     (let user = from_user message;
          user_input = msg_text message
      in if is_owner e (u_id user) then
           (let broadcast_message = join_sp (args_of (msg_text message))
            in if broadcast_message \<noteq> [] then
                 (s, broadcast_loop e broadcast_message (map doc_user_id (users_collection s))
                     @ broadcast_loop e broadcast_message
                         (map doc_group_id (groups_collection s))
                     @ [Reply broadcast_sent]
                     @ log_message s user user_input broadcast_sent)
               else
                 (let response_text = broadcast_usage
                  in (s, [Reply response_text]
                         @ log_message s user user_input response_text)))
         else (s, [Reply not_capable] @ log_message s user user_input not_capable))"

section \<open>Cancelling\<close>

text \<open>
  \<^verbatim>\<open>user_id in user_tasks and not user_tasks[user_id].done()\<close>, then
  \<^verbatim>\<open>user_tasks[user_id].cancel()\<close>. The two handlers differ in their replies only.
\<close>

definition cancel_with :: "string \<Rightarrow> string \<Rightarrow> message \<Rightarrow> state \<Rightarrow> state \<times> event list" where
  "cancel_with canceled no_active message s =
     (let user = from_user message;
          user_id = u_id user
      in case user_tasks s user_id of
           None \<Rightarrow> (s, [Reply no_active])
         | Some task \<Rightarrow>
             if task \<notin> done_tasks s then
               (s\<lparr>cancel_requested := insert task (cancel_requested s)\<rparr>, [Reply canceled])
             else (s, [Reply no_active]))"

definition ai_canceled :: string where
  "ai_canceled = ''Your /ai command has been canceled.''"

definition ai_no_active :: string where
  "ai_no_active = ''You do not have any active /ai command.''"

definition proai_canceled :: string where
  "proai_canceled = ''Your /proai command has been canceled.''"

definition proai_no_active :: string where
  "proai_no_active = ''You do not have any active /proai command.''"

definition cancelai_command :: "env \<Rightarrow> message \<Rightarrow> state \<Rightarrow> state \<times> event list" where
  "cancelai_command e message s = cancel_with ai_canceled ai_no_active message s"

definition cancelproai_command :: "env \<Rightarrow> message \<Rightarrow> state \<Rightarrow> state \<times> event list" where
  "cancelproai_command e message s = cancel_with proai_canceled proai_no_active message s"

section \<open>The /ping command\<close>

text \<open>
  Both timestamps are read from \<^verbatim>\<open>message.date\<close>; \<^verbatim>\<open>int((end_time - start_time) * 1000)\<close>
  is the difference in milliseconds.
\<close>

definition ping_command :: "env \<Rightarrow> message \<Rightarrow> state \<Rightarrow> state \<times> event list" where
  "ping_command e message s =
     (let user = from_user message;
          user_input = msg_text message;
          start_time = date message;
          end_time = date message;
          ping_time = (end_time - start_time) * 1000;
          response_text = ''Pong! '' @ str_int ping_time @ '' ms''
      in (s, [Reply ''Pong!'', Reply response_text]
             @ log_message s user user_input response_text))"

section \<open>The remaining commands\<close>

text \<open>
  \<^verbatim>\<open>users_collection.update_one({'user_id': id}, {'$set': {...}}, upsert=True)\<close>.
\<close>

fun users_update_one :: "int \<Rightarrow> string option \<Rightarrow> string \<Rightarrow> user_doc list \<Rightarrow> user_doc list" where
  "users_update_one user_id name full_name [] =
     [\<lparr>doc_user_id = user_id, doc_username = name, doc_full_name = full_name\<rparr>]"
| "users_update_one user_id name full_name (d # ds) =
     (if doc_user_id d = user_id then d\<lparr>doc_username := name, doc_full_name := full_name\<rparr> # ds
      else d # users_update_one user_id name full_name ds)"

definition start_text :: string where
  "start_text =
     ''Hi! Send me a command /ai followed by your prompt to generate an image, or use /ask followed by your query to get an answer, ''
     @ ''or /dev to get developer info, or /help to get all commands info.\<newline>\<newline>Developed by @AkhandanandTripathi''"

definition start_command :: "env \<Rightarrow> message \<Rightarrow> state \<Rightarrow> state \<times> event list" where
  "start_command e message s =
     (let user = from_user message;
          user_input = msg_text message;
          full_name = strip (u_first_name user @ '' '' @ or_empty (u_last_name user))
      in (s\<lparr>users_collection :=
               users_update_one (u_id user) (u_username user) full_name (users_collection s)\<rparr>,
          [Reply start_text] @ log_message s user user_input start_text))"

definition help_text :: string where
  "help_text =
     ''Available commands:\<newline>''
     @ ''/start - Start the bot\<newline>''
     @ ''/ai <prompt> - Generate an image based on the prompt\<newline>''
     @ ''/proai <prompt> - Generate an image based on the prompt (professional, no time limit)\<newline>''
     @ ''/modify <prompt> - Modify the last generated image\<newline>''
     @ ''/ask <query> - Get an answer to your query\<newline>''
     @ ''/dev - Get developer info\<newline>''
     @ ''/setlogchannel <id> - Set the log channel (owner only)\<newline>''
     @ ''/ping - Check the server response time\<newline>''
     @ ''/generate - Generate a gift code (owner only)\<newline>''
     @ ''/redeem <code> - Redeem a gift code to get a professional plan\<newline>''
     @ ''/users - Get the list of users (owner only)\<newline>''
     @ ''/broadcast <message> - Broadcast a message to all users and groups (owner only)\<newline>''
     @ ''/cancelai - Cancel the current /ai command\<newline>''
     @ ''/cancelproai - Cancel the current /proai command\<newline>''
     @ ''/voice <text> - Convert text to speech using Amazon Polly''"

definition help_command :: "env \<Rightarrow> message \<Rightarrow> state \<Rightarrow> state \<times> event list" where
  "help_command e message s =
     (s, [Reply help_text] @ log_message s (from_user message) (msg_text message) help_text)"

definition dev_command :: "env \<Rightarrow> message \<Rightarrow> state \<Rightarrow> state \<times> event list" where
  "dev_command e message s =
     (let response_text = ''Developer @AkhandanandTripathi''
      in (s, [Reply response_text]
             @ log_message s (from_user message) (msg_text message) response_text))"

definition modify_failure :: string where
  "modify_failure =
     ''Sorry, there was an error modifying the image. Please contact @AkhandanandTripathi to fix it.''"

definition modify_usage :: string where
  "modify_usage = ''Please provide a prompt after the /modify command.''"

definition modify_no_image :: string where
  "modify_no_image =
     ''No image found to modify. Please generate an image first using /ai command or reply to an image with /modify command.''"

text \<open>
  \<^verbatim>\<open>message.reply_to_message and message.reply_to_message.photo\<close>, then
  \<^verbatim>\<open>photo[-1].file_id\<close>: the last size of the replied-to photo, when there is one.
\<close>

definition replied_photo :: "message \<Rightarrow> string option" where
  "replied_photo message =
     (case reply_photo message of
        None \<Rightarrow> None
      | Some sizes \<Rightarrow> if sizes = [] then None else Some (last sizes))"

definition modify_command :: "env \<Rightarrow> message \<Rightarrow> state \<Rightarrow> state \<times> event list" where
  "modify_command e message s =
     (let user = from_user message;
          user_input = msg_text message;
          user_id = u_id user;
          modify_prompt = join_sp (args_of (msg_text message));
          usage = [Reply modify_usage] @ log_message s user user_input modify_usage;
          failure = [Reply modify_failure] @ log_message s user user_input modify_failure
      in case replied_photo message of
           Some photo \<Rightarrow>
             (let file_url = get_file_url e photo
              in if modify_prompt \<noteq> [] then
                 (let (modified_image_url, ev) =
                        generate_image e
                          (''Modify this image: '' @ file_url @ '' with '' @ modify_prompt)
                  in case if_truthy modified_image_url of
                       Some url \<Rightarrow>
                         (s, [Get_file_url photo, Reply ''Modifying the image...''] @ ev
                             @ [Reply_photo url] @ log_message s user user_input url)
                     | None \<Rightarrow>
                         (s, [Get_file_url photo, Reply ''Modifying the image...''] @ ev
                             @ failure))
               else (s, [Get_file_url photo] @ usage))
         | None \<Rightarrow>
           (case user_images s user_id of
              Some last_image \<Rightarrow>
                if modify_prompt \<noteq> [] then
                  (let (modified_image_url, ev) =
                         generate_image e
                           (''Modify this image: '' @ last_image @ '' with '' @ modify_prompt)
                   in case if_truthy modified_image_url of
                        Some url \<Rightarrow>
                          (s\<lparr>user_images := (user_images s)(user_id \<mapsto> url)\<rparr>,
                           [Reply ''Modifying the last generated image...''] @ ev
                           @ [Reply_photo url] @ log_message s user user_input url)
                      | None \<Rightarrow>
                          (s, [Reply ''Modifying the last generated image...''] @ ev @ failure))
                else (s, usage)
            | None \<Rightarrow>
                (s, [Reply modify_no_image]
                    @ log_message s user user_input modify_no_image)))"

definition ask_failure :: string where
  "ask_failure =
     ''Sorry, there was an error generating the answer. Please contact @AkhandanandTripathi to fix it.''"

definition ask_usage :: string where
  "ask_usage = ''Please provide a query after the /ask command.''"

definition ask_command :: "env \<Rightarrow> message \<Rightarrow> state \<Rightarrow> state \<times> event list" where
  "ask_command e message s =
     (let user = from_user message;
          user_input = msg_text message;
          user_question = join_sp (args_of (msg_text message))
      in if user_question \<noteq> [] then
           (let (answer, ev) = generate_image e user_question
            in case if_truthy answer of
                 Some a \<Rightarrow>
                   (s, [Reply ''Thinking...''] @ ev @ [Reply a]
                       @ log_message s user user_input a)
               | None \<Rightarrow>
                   (s, [Reply ''Thinking...''] @ ev @ [Reply ask_failure]
                       @ log_message s user user_input ask_failure))
         else (s, [Reply ask_usage] @ log_message s user user_input ask_usage))"

definition voice_failure :: string where
  "voice_failure =
     ''Sorry, there was an error generating the audio. Please contact @AkhandanandTripathi to fix it.''"

definition voice_usage :: string where
  "voice_usage = ''Please provide text to convert to speech after the /voice command.''"

definition voice_command :: "env \<Rightarrow> message \<Rightarrow> state \<Rightarrow> state \<times> event list" where
  "voice_command e message s =
     (let user = from_user message;
          user_input = msg_text message;
          text_to_speech = join_sp (args_of (msg_text message))
      in if text_to_speech \<noteq> [] then
           (case synthesize_speech e text_to_speech of
              Inr audio_stream \<Rightarrow>
                (s, [Polly text_to_speech,
                     Write_file ''akhandanandtripathi.mp3'' audio_stream,
                     Send_audio (u_id user) audio_stream ''akhandanandtripathi'']
                    @ log_message s user user_input ''Audio generated and sent.'')
            | Inl x \<Rightarrow>
                (s, [Polly text_to_speech, Log_error (''Error generating voice: '' @ x),
                     Reply voice_failure]
                    @ log_message s user user_input voice_failure))
         else (s, [Reply voice_usage] @ log_message s user user_input voice_usage))"

section \<open>The dispatcher\<close>

text \<open>The sixteen registered commands and the handler of each.\<close>

datatype command =
  Start | Help | Ai | Proai | Modify | Ask | Dev | Setlogchannel | Ping | Generate
| Redeem | Users | Broadcast | Cancelai | Cancelproai | Voice

fun handler :: "command \<Rightarrow> env \<Rightarrow> message \<Rightarrow> state \<Rightarrow> state \<times> event list" where
  "handler Start = start_command"
| "handler Help = help_command"
| "handler Ai = ai_command"
| "handler Proai = proai_command"
| "handler Modify = modify_command"
| "handler Ask = ask_command"
| "handler Dev = dev_command"
| "handler Setlogchannel = setlogchannel_command"
| "handler Ping = ping_command"
| "handler Generate = generate_command"
| "handler Redeem = redeem_command"
| "handler Users = users_command"
| "handler Broadcast = broadcast_command"
| "handler Cancelai = cancelai_command"
| "handler Cancelproai = cancelproai_command"
| "handler Voice = voice_command"

section \<open>The event loop\<close>

text \<open>
  What the event loop does next: it hands a message to the handler of its command, or
  it runs a spawned task from the await it is suspended in, where that await has
  returned or has raised. A handler is taken to run without a task running in between.
\<close>

datatype outcome = Returns | Raises

datatype action = Deliver command message | Resume nat outcome

text \<open>Who made a call: a handler, or the task with the given handle.\<close>

datatype origin = Handler | Task nat

text \<open>The process state together with the point at which every task stands.\<close>

type_synonym world = "state \<times> (nat \<Rightarrow> point)"

text \<open>
  A task that is done is not run again. A task for which \<^verbatim>\<open>task.cancel()\<close> has been
  called gets \<^verbatim>\<open>CancelledError\<close> where it stands, also before its first run; neither
  coroutine catches it, nor the exception of an await that raises, so the task ends
  there. Otherwise the coroutine runs to its next await or to its end.
\<close>

definition resume :: "env \<Rightarrow> nat \<Rightarrow> outcome \<Rightarrow> world \<Rightarrow> world \<times> (origin \<times> event) list" where
  "resume e h out w =
     (let (s, at) = w
      in if h < length (spawned s) \<and> h \<notin> done_tasks s then
           if h \<in> cancel_requested s \<or> (out = Raises \<and> at h \<noteq> Created) then
             ((s\<lparr>done_tasks := insert h (done_tasks s)\<rparr>, at), [])
           else
             (case spawned s ! h of
                Generate_image_task user user_input prompt \<Rightarrow>
                  (case generate_image_task e user user_input prompt s (at h) of
                     (Some next, s1, ev) \<Rightarrow> ((s1, at(h := next)), map (Pair (Task h)) ev)
                   | (None, s1, ev) \<Rightarrow>
                       ((s1\<lparr>done_tasks := insert h (done_tasks s1)\<rparr>, at),
                        map (Pair (Task h)) ev))
              | Generate_proai_task user user_input prompt \<Rightarrow>
                  (case generate_proai_task e user user_input prompt s (at h) of
                     (Some next, ev) \<Rightarrow> ((s, at(h := next)), map (Pair (Task h)) ev)
                   | (None, ev) \<Rightarrow>
                       ((s\<lparr>done_tasks := insert h (done_tasks s)\<rparr>, at),
                        map (Pair (Task h)) ev)))
         else (w, []))"

definition step :: "env \<Rightarrow> action \<Rightarrow> world \<Rightarrow> world \<times> (origin \<times> event) list" where
  "step e a w =
     (case a of
        Deliver c m \<Rightarrow>
          (let (s, at) = w; (s1, ev) = handler c e m s
           in ((s1, at), map (Pair Handler) ev))
      | Resume h out \<Rightarrow> resume e h out w)"

fun run :: "env \<Rightarrow> action list \<Rightarrow> world \<Rightarrow> world \<times> (origin \<times> event) list" where
  "run e [] w = (w, [])"
| "run e (a # rest) w =
     (let (w1, ev1) = step e a w; (w2, ev2) = run e rest w1 in (w2, ev1 @ ev2))"

text \<open>The calls of one task in a trace of the event loop, in order.\<close>

definition task_events :: "nat \<Rightarrow> (origin \<times> event) list \<Rightarrow> event list" where
  "task_events h tr = map snd (filter (\<lambda>x. fst x = Task h) tr)"

section \<open>Refusals\<close>

text \<open>
  The text with which the handler of a command turns a message down, by the checks the
  handlers make: the sender is not the owner, has no professional subscription, gave
  no argument (or not exactly one), names no gift code of the store, has no image to
  modify, or has no live task to cancel. \<open>None\<close> where the handler goes ahead, and
  where /ai answers that the sender must wait.
\<close>

definition refusal :: "command \<Rightarrow> env \<Rightarrow> message \<Rightarrow> state \<Rightarrow> string option" where
  "refusal c e m s =
     (let user_id = u_id (from_user m);
          args = args_of (msg_text m);
          arg = join_sp args;
          live = (case user_tasks s user_id of
                    None \<Rightarrow> False
                  | Some task \<Rightarrow> task \<notin> done_tasks s)
      in case c of
           Ai \<Rightarrow>
             if (case last_ai_use s user_id of
                   None \<Rightarrow> False
                 | Some last_time \<Rightarrow> date m - last_time < 5)
             then None
             else if arg = [] then Some ai_usage else None
         | Proai \<Rightarrow>
             (case find_one_subscription user_id (subscriptions_collection s) of
                None \<Rightarrow> Some need_redeem
              | Some subscription \<Rightarrow>
                  if sub_plan subscription \<noteq> ''professional'' then Some need_redeem
                  else if arg = [] then Some proai_usage else None)
         | Modify \<Rightarrow>
             (case replied_photo m of
                Some photo \<Rightarrow> if arg = [] then Some modify_usage else None
              | None \<Rightarrow>
                  (case user_images s user_id of
                     Some last_image \<Rightarrow> if arg = [] then Some modify_usage else None
                   | None \<Rightarrow> Some modify_no_image))
         | Ask \<Rightarrow> if arg = [] then Some ask_usage else None
         | Setlogchannel \<Rightarrow>
             if \<not> is_owner e user_id then Some no_permission
             else if length args \<noteq> 1 then Some setlogchannel_usage else None
         | Generate \<Rightarrow> if \<not> is_owner e user_id then Some no_permission else None
         | Redeem \<Rightarrow>
             if length args \<noteq> 1 then Some redeem_usage
             else if hd args \<notin> gift_code ` set (gift_codes_collection s)
                  then Some redeem_invalid else None
         | Users \<Rightarrow> if \<not> is_owner e user_id then Some not_capable else None
         | Broadcast \<Rightarrow>
             if \<not> is_owner e user_id then Some not_capable
             else if arg = [] then Some broadcast_usage else None
         | Voice \<Rightarrow> if arg = [] then Some voice_usage else None
         | Cancelai \<Rightarrow> if live then None else Some ai_no_active
         | Cancelproai \<Rightarrow> if live then None else Some proai_no_active
         | _ \<Rightarrow> None)"

text \<open>
  Whether step \<open>i\<close> of the multi-step flow succeeds: the \<^verbatim>\<open>if image_url:\<close> of
  \<^verbatim>\<open>generate_proai_task\<close> on what \<^verbatim>\<open>generate_image\<close> returns for the step's prompt.
\<close>

definition step_ok :: "env \<Rightarrow> string \<Rightarrow> nat \<Rightarrow> bool" where
  "step_ok e prompt i = truthy (fst (generate_image e (step_prompt prompt i)))"

section \<open>Reading a trace\<close>

text \<open>The prompts sent to the image endpoint, in order.\<close>

fun requests :: "event list \<Rightarrow> string list" where
  "requests [] = []"
| "requests (Request p # es) = p # requests es"
| "requests (_ # es) = requests es"

text \<open>The requests and the sleeps of a trace, in order.\<close>

fun pacing :: "event list \<Rightarrow> event list" where
  "pacing [] = []"
| "pacing (Request p # es) = Request p # pacing es"
| "pacing (Sleep n # es) = Sleep n # pacing es"
| "pacing (_ # es) = pacing es"

text \<open>The numeric chats a text was sent to with \<^verbatim>\<open>bot.send_message\<close>, in order.\<close>

fun recipients :: "string \<Rightarrow> event list \<Rightarrow> int list" where
  "recipients t [] = []"
| "recipients t (Send_message (Chat_id r) t' # es) =
     (if t' = t then r # recipients t es else recipients t es)"
| "recipients t (_ # es) = recipients t es"

text \<open>The lines written with \<^verbatim>\<open>log.error\<close>, in order.\<close>

fun logged_errors :: "event list \<Rightarrow> string list" where
  "logged_errors [] = []"
| "logged_errors (Log_error x # es) = x # logged_errors es"
| "logged_errors (_ # es) = logged_errors es"

text \<open>The texts of the plain replies, in order.\<close>

fun replies :: "event list \<Rightarrow> string list" where
  "replies [] = []"
| "replies (Reply r # es) = r # replies es"
| "replies (_ # es) = replies es"

section \<open>The multi-step task between its awaits\<close>

text \<open>The requests and sleeps of the first \<open>n\<close> steps, all of them successful.\<close>

definition pace :: "string \<Rightarrow> nat \<Rightarrow> event list" where
  "pace prompt n = concat (map (\<lambda>i. [Request (step_prompt prompt i), Sleep 5]) [0..<n])"

text \<open>
  The calls \<open>T\<close> that a multi-step task has made fit the point at which it stands:
  all steps before the current one succeeded and were each followed by a sleep, the
  current step has been requested, and the failure notice has been sent once, as the
  last call or followed by its log line, exactly when the current step failed. \<open>P\<close>
  holds of the log channel of the state in which the notice was logged.
\<close>

definition consistent ::
  "(string option \<Rightarrow> bool) \<Rightarrow> env \<Rightarrow> user \<Rightarrow> string \<Rightarrow> string \<Rightarrow> event list \<Rightarrow> point \<Rightarrow> bool" where
  "consistent P e user user_input prompt T at =
     (case at of
        Created \<Rightarrow> T = []
      | Sending_photo i url \<Rightarrow>
          i < 15 \<and> (\<forall>j\<le>i. step_ok e prompt j)
          \<and> pacing T = pace prompt i @ [Request (step_prompt prompt i)]
          \<and> Send_message (Chat_id (u_id user)) proai_failure \<notin> set T
      | Logging_photo i url \<Rightarrow>
          i < 15 \<and> (\<forall>j\<le>i. step_ok e prompt j)
          \<and> pacing T = pace prompt i @ [Request (step_prompt prompt i)]
          \<and> Send_message (Chat_id (u_id user)) proai_failure \<notin> set T
      | Sleeping i \<Rightarrow>
          i < 15 \<and> (\<forall>j\<le>i. step_ok e prompt j)
          \<and> pacing T = pace prompt (Suc i)
          \<and> Send_message (Chat_id (u_id user)) proai_failure \<notin> set T
      | Sending_notice i \<Rightarrow>
          i < 15 \<and> (\<forall>j<i. step_ok e prompt j) \<and> \<not> step_ok e prompt i
          \<and> pacing T = pace prompt i @ [Request (step_prompt prompt i)]
          \<and> (\<exists>pre. T = pre @ [Send_message (Chat_id (u_id user)) proai_failure]
                    \<and> Send_message (Chat_id (u_id user)) proai_failure \<notin> set pre)
      | Logging_notice i \<Rightarrow>
          i < 15 \<and> (\<forall>j<i. step_ok e prompt j) \<and> \<not> step_ok e prompt i
          \<and> pacing T = pace prompt i @ [Request (step_prompt prompt i)]
          \<and> (\<exists>pre s'. P (LOG_CHANNEL_ID s')
                \<and> T = pre @ Send_message (Chat_id (u_id user)) proai_failure
                           # log_message s' user user_input proai_failure
                \<and> Send_message (Chat_id (u_id user)) proai_failure \<notin> set pre))"

text \<open>
  The task has come to the end of its coroutine: after the sleep of the last step, or
  after the failure notice and its log line.
\<close>

definition finished ::
  "(string option \<Rightarrow> bool) \<Rightarrow> user \<Rightarrow> string \<Rightarrow> event list \<Rightarrow> point \<Rightarrow> bool" where
  "finished P user user_input T at =
     (at = Sleeping 14
      \<or> ((\<exists>i. at = Sending_notice i \<or> at = Logging_notice i)
          \<and> (\<exists>pre s'. P (LOG_CHANNEL_ID s')
                \<and> T = pre @ Send_message (Chat_id (u_id user)) proai_failure
                           # log_message s' user user_input proai_failure
                \<and> Send_message (Chat_id (u_id user)) proai_failure \<notin> set pre)))"

text \<open>
  What holds of the multi-step task \<open>h\<close> in a world, with the calls \<open>T\<close> it has made so
  far: it is a spawned task with these arguments, its calls fit the point where it
  stands, and if it is done, it was cancelled, or an await raised (\<open>R\<close>), or it
  finished.
\<close>

definition proai_inv ::
  "(string option \<Rightarrow> bool) \<Rightarrow> bool \<Rightarrow> env \<Rightarrow> nat \<Rightarrow> user \<Rightarrow> string \<Rightarrow> string \<Rightarrow> world
     \<Rightarrow> event list \<Rightarrow> bool" where
  "proai_inv P R e h user user_input prompt w T =
     (h < length (spawned (fst w))
      \<and> spawned (fst w) ! h = Generate_proai_task user user_input prompt
      \<and> P (LOG_CHANNEL_ID (fst w))
      \<and> consistent P e user user_input prompt T (snd w h)
      \<and> (h \<in> done_tasks (fst w) \<longrightarrow>
           h \<in> cancel_requested (fst w) \<or> R \<or> finished P user user_input T (snd w h)))"

text \<open>
  A bound on the number of resumptions after which a task standing at a point has
  ended, when each of its awaits returns.
\<close>

definition remaining :: "point \<Rightarrow> nat" where
  "remaining at =
     (case at of
        Created \<Rightarrow> 46
      | Sending_photo i url \<Rightarrow> 3 * (15 - i)
      | Logging_photo i url \<Rightarrow> 3 * (15 - i) - 1
      | Sleeping i \<Rightarrow> 3 * (15 - i) - 2
      | Sending_notice i \<Rightarrow> 2
      | Logging_notice i \<Rightarrow> 1)"

section \<open>Sample values\<close>

definition alice :: user where
  "alice = \<lparr>u_id = 7, u_username = Some ''alice'', u_first_name = ''Alice'', u_last_name = None\<rparr>"

definition boss :: user where
  "boss = \<lparr>u_id = 1, u_username = Some ''boss'', u_first_name = ''The'', u_last_name = Some ''Boss''\<rparr>"

definition msg :: "user \<Rightarrow> string \<Rightarrow> int \<Rightarrow> message" where
  "msg u t d = \<lparr>from_user = u, msg_text = t, date = d, reply_photo = None\<rparr>"

text \<open>An environment where the owner is user 1 and nothing fails.\<close>

definition env0 :: env where
  "env0 =
     \<lparr>BOT_OWNER_ID = 1,
      provider = (\<lambda>p. Data ''http://img''),
      send_error = (\<lambda>r t. None),
      get_file_url = (\<lambda>f. ''http://file''),
      synthesize_speech = (\<lambda>t. Inr ''mp3''),
      generate_code = ''ABC123''\<rparr>"

text \<open>The state after start-up, with no log channel and empty collections.\<close>

definition state0 :: state where
  "state0 =
     \<lparr>last_ai_use = Map.empty, user_images = Map.empty, user_tasks = Map.empty,
      LOG_CHANNEL_ID = None, users_collection = [], groups_collection = [],
      subscriptions_collection = [], gift_codes_collection = [], spawned = [],
      done_tasks = {}, cancel_requested = {}\<rparr>"

text \<open>The start-up state after Alice's \<^verbatim>\<open>/ai a cat\<close> at time 100.\<close>

definition state_after_ai :: state where
  "state_after_ai =
     state0\<lparr>last_ai_use := [7 \<mapsto> 100],
            spawned := [Generate_image_task alice ''/ai a cat'' ''a cat''],
            user_tasks := [7 \<mapsto> 0]\<rparr>"


text \<open>The start-up state with Alice subscribed to the professional plan.\<close>

definition state_subscribed :: state where
  "state_subscribed =
     state0\<lparr>subscriptions_collection := [\<lparr>sub_user_id = 7, sub_plan = ''professional''\<rparr>]\<rparr>"

text \<open>The state after Alice's second command, \<^verbatim>\<open>/ai a dog\<close> at time 200.\<close>

definition state_after_second_ai :: state where
  "state_after_second_ai =
     state0\<lparr>last_ai_use := [7 \<mapsto> 200],
            spawned := [Generate_image_task alice ''/ai a cat'' ''a cat'',
                        Generate_image_task alice ''/ai a dog'' ''a dog''],
            user_tasks := [7 \<mapsto> 1]\<rparr>"

text \<open>An environment where every delivery to chat 7 raises.\<close>

definition env_blocked :: env where
  "env_blocked = env0\<lparr>send_error := (\<lambda>r t. if r = 7 then Some ''blocked'' else None)\<rparr>"

text \<open>The start-up state with one known user and one known group.\<close>

definition state_with_audience :: state where
  "state_with_audience =
     state0\<lparr>users_collection :=
              [\<lparr>doc_user_id = 7, doc_username = Some ''alice'', doc_full_name = ''Alice''\<rparr>],
            groups_collection := [\<lparr>doc_group_id = - 100, doc_title = ''Friends''\<rparr>]\<rparr>"

text \<open>An environment where the image endpoint fails on the third step for \<open>a cat\<close>.\<close>

definition env_failing :: env where
  "env_failing =
     env0\<lparr>provider := (\<lambda>p. if p = ''a cat (image 3 improving each time)''
                            then No_data ''{}'' else Data ''http://img'')\<rparr>"

text \<open>The start-up state with a log channel configured.\<close>

definition state_logged :: state where
  "state_logged = state0\<lparr>LOG_CHANNEL_ID := Some ''-1001''\<rparr>"

text \<open>The state after Alice's \<^verbatim>\<open>/proai a cat\<close>, when she is subscribed.\<close>

definition state_proai_started :: state where
  "state_proai_started =
     state_subscribed\<lparr>spawned := [Generate_proai_task alice ''/proai a cat'' ''a cat''],
                       user_tasks := [7 \<mapsto> 0]\<rparr>"

text \<open>No task has run yet.\<close>

definition all_created :: "nat \<Rightarrow> point" where
  "all_created h = Created"



section \<open>Facts about the helpers\<close>

lemma log_message_no_reply: "Reply r \<notin> set (log_message s u i b)"
  by (simp add: log_message_def Let_def split: option.split)

lemma log_message_configured:
  assumes "LOG_CHANNEL_ID s = Some c" and "c \<noteq> []"
  shows "log_message s u i b = [Send_message (Chat_name c) (log_text u i b)]"
  using assms by (simp add: log_message_def)

lemma msg_sel:
  "from_user (msg u t d) = u" "msg_text (msg u t d) = t" "date (msg u t d) = d"
  "reply_photo (msg u t d) = None"
  by (simp_all add: msg_def)

lemma alice_id: "u_id alice = 7"
  by (simp add: alice_def)

lemma boss_id: "u_id boss = 1"
  by (simp add: boss_def)

section \<open>The rate limiter of /ai\<close>

lemma ai_command_denied_iff:
  "Reply please_wait \<in> set (snd (ai_command e m s)) \<longleftrightarrow>
     (\<exists>t. last_ai_use s (u_id (from_user m)) = Some t \<and> date m - t < 5)"
  by (auto simp: ai_command_def Let_def create_task_def please_wait_def ai_usage_def
        log_message_no_reply
           split: option.splits if_splits)

lemma ai_command_allowed:
  assumes "Reply please_wait \<notin> set (snd (ai_command e m s))"
  shows "last_ai_use (fst (ai_command e m s)) = (last_ai_use s)(u_id (from_user m) \<mapsto> date m)"
  using assms
  by (auto simp: ai_command_def Let_def create_task_def please_wait_def
           split: option.splits if_splits)

lemma ai_command_denied:
  assumes "Reply please_wait \<in> set (snd (ai_command e m s))"
  shows "ai_command e m s =
           (s, Reply please_wait # log_message s (from_user m) (msg_text m) please_wait)"
  using assms
  by (auto simp: ai_command_def Let_def create_task_def please_wait_def ai_usage_def
        log_message_no_reply
           split: option.splits if_splits)

text \<open>
  C1. An /ai invocation passes the rate limiter (it is not answered with the
  please-wait reply) iff the sender has no recorded timestamp or the message's time is
  at least 5 seconds after the recorded one. When it passes, the sender's timestamp
  becomes the message's time and no other entry changes, so that a second invocation
  by the same sender is rejected iff it comes less than 5 seconds after the first.
  When it is rejected, the state is unchanged and the handler's only output is the
  please-wait reply and its log line.
\<close>

theorem ai_command_rate_limit:
  "(case ai_command e m s of (s', tr) \<Rightarrow>
      (Reply please_wait \<notin> set tr \<longleftrightarrow>
         (last_ai_use s (u_id (from_user m)) = None
          \<or> (\<exists>t. last_ai_use s (u_id (from_user m)) = Some t \<and> date m - t \<ge> 5)))
    \<and> (Reply please_wait \<notin> set tr \<longrightarrow>
         last_ai_use s' = (last_ai_use s)(u_id (from_user m) \<mapsto> date m)
         \<and> (\<forall>m2. u_id (from_user m2) = u_id (from_user m) \<longrightarrow>
               (Reply please_wait \<in> set (snd (ai_command e m2 s')) \<longleftrightarrow>
                  date m2 - date m < 5)))
    \<and> (Reply please_wait \<in> set tr \<longrightarrow>
         s' = s \<and> tr = Reply please_wait
                # log_message s (from_user m) (msg_text m) please_wait))"
proof -
  obtain s' tr where r: "ai_command e m s = (s', tr)"
    by (cases "ai_command e m s")
  have a: "Reply please_wait \<notin> set tr \<longleftrightarrow>
         (last_ai_use s (u_id (from_user m)) = None
          \<or> (\<exists>t. last_ai_use s (u_id (from_user m)) = Some t \<and> date m - t \<ge> 5))"
    using ai_command_denied_iff [of e m s] r
    by (cases "last_ai_use s (u_id (from_user m))") auto
  have b: "last_ai_use s' = (last_ai_use s)(u_id (from_user m) \<mapsto> date m)"
    if "Reply please_wait \<notin> set tr"
    using ai_command_allowed [of e m s] r that by simp
  have c: "Reply please_wait \<in> set (snd (ai_command e m2 s')) \<longleftrightarrow> date m2 - date m < 5"
    if "Reply please_wait \<notin> set tr" "u_id (from_user m2) = u_id (from_user m)" for m2
    using ai_command_denied_iff [of e m2 s'] b [OF that(1)] that(2) by simp
  have d: "s' = s \<and> tr = Reply please_wait
                # log_message s (from_user m) (msg_text m) please_wait"
    if "Reply please_wait \<in> set tr"
    using ai_command_denied [of e m s] r that by simp
  show ?thesis using a b c d by (simp add: r)
qed

lemma ai_command_first_run:
  "ai_command env0 (msg alice ''/ai a cat'' 100) state0
     = (state_after_ai, [Reply ''Generating image...''])"
  by (simp add: ai_command_def Let_def create_task_def msg_def alice_def state0_def
        args_of_def split_sp_def state_after_ai_def)

lemma ai_command_second_run:
  "ai_command env0 (msg alice ''/ai a dog'' 103) state_after_ai
     = (state_after_ai, [Reply please_wait])"
  by (simp add: ai_command_def Let_def msg_def alice_def state0_def state_after_ai_def
        log_message_def)

lemma state_after_ai_last: "last_ai_use state_after_ai = [7 \<mapsto> 100]"
  by (simp add: state_after_ai_def)

lemma state0_last: "last_ai_use state0 = Map.empty"
  by (simp add: state0_def)

theorem ai_command_rate_limit_witness:
  "Reply please_wait \<notin> set (snd (ai_command env0 (msg alice ''/ai a cat'' 100) state0))
   \<and> last_ai_use (fst (ai_command env0 (msg alice ''/ai a cat'' 100) state0)) 7 = Some 100
   \<and> Reply please_wait
        \<in> set (snd (ai_command env0 (msg alice ''/ai a dog'' 103) state_after_ai))
   \<and> fst (ai_command env0 (msg alice ''/ai a dog'' 103) state_after_ai) = state_after_ai
   \<and> Reply please_wait
        \<notin> set (snd (ai_command env0 (msg alice ''/ai a dog'' 105) state_after_ai))"
  using ai_command_rate_limit [where e = env0 and m = "msg alice ''/ai a cat'' 100" and s = state0]
    ai_command_rate_limit
      [where e = env0 and m = "msg alice ''/ai a dog'' 103" and s = state_after_ai]
  by (simp add: ai_command_first_run ai_command_second_run msg_sel alice_id
        state_after_ai_last state0_last)

lemma recipients_log_message: "recipients t (log_message s u i b) = []"
  by (simp add: log_message_def Let_def split: option.split)

lemma log_message_state0: "log_message state0 u i b = []"
  by (simp add: log_message_def state0_def)

section \<open>The /ping command reports no elapsed time\<close>

text \<open>
  C10. Whatever the message and the state, /ping answers \<open>Pong!\<close> and then
  \<open>Pong! 0 ms\<close>: the start and the end of the measured interval are the same
  \<^verbatim>\<open>message.date\<close>, so the reported round trip is always 0 ms.
\<close>

theorem ping_command_zero:
  "ping_command e m s =
     (s, [Reply ''Pong!'', Reply ''Pong! 0 ms'']
         @ log_message s (from_user m) (msg_text m) ''Pong! 0 ms'')"
  by (simp add: ping_command_def Let_def str_int_def str_nat.simps)

section \<open>Owner-only commands\<close>

text \<open>
  C6. When the sender is not the configured owner, each of /generate, /setlogchannel,
  /users and /broadcast leaves the whole state as it was (no gift code inserted, no
  log channel changed), answers with its refusal text, and outputs nothing but that
  reply and its log line; in particular /broadcast sends no text to any chat.
\<close>

theorem non_owner_refused:
  assumes "u_id (from_user m) \<noteq> BOT_OWNER_ID e"
  shows "generate_command e m s =
           (s, Reply no_permission # log_message s (from_user m) (msg_text m) no_permission)
       \<and> setlogchannel_command e m s =
           (s, Reply no_permission # log_message s (from_user m) (msg_text m) no_permission)
       \<and> users_command e m s =
           (s, Reply not_capable # log_message s (from_user m) (msg_text m) not_capable)
       \<and> broadcast_command e m s =
           (s, Reply not_capable # log_message s (from_user m) (msg_text m) not_capable)
       \<and> recipients t (snd (broadcast_command e m s)) = []"
  using assms
  by (simp add: generate_command_def setlogchannel_command_def users_command_def
        broadcast_command_def is_owner_def Let_def recipients_log_message)

theorem non_owner_refused_witness:
  "u_id (from_user (msg alice ''/broadcast hello'' 100)) \<noteq> BOT_OWNER_ID env0
   \<and> generate_command env0 (msg alice ''/broadcast hello'' 100) state0
       = (state0, [Reply no_permission])
   \<and> setlogchannel_command env0 (msg alice ''/broadcast hello'' 100) state0
       = (state0, [Reply no_permission])
   \<and> users_command env0 (msg alice ''/broadcast hello'' 100) state0
       = (state0, [Reply not_capable])
   \<and> broadcast_command env0 (msg alice ''/broadcast hello'' 100) state0
       = (state0, [Reply not_capable])"
proof -
  have h: "u_id (from_user (msg alice ''/broadcast hello'' 100)) \<noteq> BOT_OWNER_ID env0"
    by (simp add: msg_sel alice_id env0_def)
  show ?thesis
    using h non_owner_refused [OF h, of state0] by (simp add: log_message_state0)
qed

section \<open>Redeeming a gift code\<close>

lemma find_one_and_delete_absent:
  "code \<notin> gift_code ` set docs \<Longrightarrow> find_one_and_delete code docs = (None, docs)"
  by (induction docs) auto




lemma redeem_command_absent:
  assumes "args_of (msg_text m) = [code]" and "code \<notin> gift_code ` set (gift_codes_collection s)"
  shows "redeem_command e m s =
           (s, Reply redeem_invalid # log_message s (from_user m) (msg_text m) redeem_invalid)"
  using assms by (simp add: redeem_command_def Let_def find_one_and_delete_absent log_message_def)













section \<open>The subscription gate of /proai\<close>

lemma find_one_subscription_unique:
  assumes "distinct (map sub_user_id docs)"
  shows "find_one_subscription u docs = Some d \<longleftrightarrow> d \<in> set docs \<and> sub_user_id d = u"
  using assms unfolding find_one_subscription_def
  by (induction docs) (auto simp: rev_image_eqI)

text \<open>
  C7. /proai starts a task (the list of spawned tasks grows) iff the store returns a
  subscription of the sender whose plan is \<open>professional\<close> and the prompt is not empty.
  Then the new task is the multi-step generation for that prompt and the sender's
  registry entry is its handle; otherwise the whole state is unchanged. A sender with
  no such subscription gets the need-to-redeem reply and its log line, nothing else.
  With one subscription document per user, the store returns a professional
  subscription of the sender iff the collection holds one.
\<close>

theorem proai_command_gate:
  "(case proai_command e m s of (s', tr) \<Rightarrow>
      (spawned s' \<noteq> spawned s \<longleftrightarrow>
         (\<exists>d. find_one_subscription (u_id (from_user m)) (subscriptions_collection s) = Some d
              \<and> sub_plan d = ''professional'')
         \<and> join_sp (args_of (msg_text m)) \<noteq> [])
    \<and> (spawned s' \<noteq> spawned s \<longrightarrow>
         s' = s\<lparr>spawned := spawned s
                   @ [Generate_proai_task (from_user m) (msg_text m)
                        (join_sp (args_of (msg_text m)))],
                 user_tasks := (user_tasks s)(u_id (from_user m) \<mapsto> length (spawned s))\<rparr>
         \<and> tr = [Reply ''Generating images...''])
    \<and> (spawned s' = spawned s \<longrightarrow> s' = s)
    \<and> (\<not> (\<exists>d. find_one_subscription (u_id (from_user m)) (subscriptions_collection s)
                  = Some d \<and> sub_plan d = ''professional'') \<longrightarrow>
         tr = Reply need_redeem # log_message s (from_user m) (msg_text m) need_redeem))
   \<and> (distinct (map sub_user_id (subscriptions_collection s)) \<longrightarrow>
        ((\<exists>d. find_one_subscription (u_id (from_user m)) (subscriptions_collection s) = Some d
              \<and> sub_plan d = ''professional'')
         \<longleftrightarrow> (\<exists>d \<in> set (subscriptions_collection s).
                sub_user_id d = u_id (from_user m) \<and> sub_plan d = ''professional'')))"
proof (rule conjI)
  show "case proai_command e m s of (s', tr) \<Rightarrow>
      (spawned s' \<noteq> spawned s \<longleftrightarrow>
         (\<exists>d. find_one_subscription (u_id (from_user m)) (subscriptions_collection s) = Some d
              \<and> sub_plan d = ''professional'')
         \<and> join_sp (args_of (msg_text m)) \<noteq> [])
    \<and> (spawned s' \<noteq> spawned s \<longrightarrow>
         s' = s\<lparr>spawned := spawned s
                   @ [Generate_proai_task (from_user m) (msg_text m)
                        (join_sp (args_of (msg_text m)))],
                 user_tasks := (user_tasks s)(u_id (from_user m) \<mapsto> length (spawned s))\<rparr>
         \<and> tr = [Reply ''Generating images...''])
    \<and> (spawned s' = spawned s \<longrightarrow> s' = s)
    \<and> (\<not> (\<exists>d. find_one_subscription (u_id (from_user m)) (subscriptions_collection s)
                  = Some d \<and> sub_plan d = ''professional'') \<longrightarrow>
         tr = Reply need_redeem # log_message s (from_user m) (msg_text m) need_redeem)"
    by (auto simp: proai_command_def Let_def create_task_def split: option.splits)
next
  show "distinct (map sub_user_id (subscriptions_collection s)) \<longrightarrow>
        ((\<exists>d. find_one_subscription (u_id (from_user m)) (subscriptions_collection s) = Some d
              \<and> sub_plan d = ''professional'')
         \<longleftrightarrow> (\<exists>d \<in> set (subscriptions_collection s).
                sub_user_id d = u_id (from_user m) \<and> sub_plan d = ''professional''))"
    using find_one_subscription_unique by blast
qed

lemma proai_args: "join_sp (args_of ''/proai a cat'') = ''a cat''"
  by (simp add: args_of_def split_sp_def)

lemma proai_command_subscribed_run:
  "proai_command env0 (msg alice ''/proai a cat'' 100) state_subscribed
     = (state_subscribed\<lparr>spawned := [Generate_proai_task alice ''/proai a cat'' ''a cat''],
                          user_tasks := [7 \<mapsto> 0]\<rparr>,
        [Reply ''Generating images...''])"
  by (simp add: proai_command_def Let_def create_task_def proai_args msg_sel alice_id
        find_one_subscription_def state_subscribed_def state0_def)

lemma proai_command_unsubscribed_run:
  "proai_command env0 (msg alice ''/proai a cat'' 100) state0 = (state0, [Reply need_redeem])"
  by (simp add: proai_command_def Let_def msg_sel alice_id find_one_subscription_def
        state0_def log_message_def)

lemma state_subscribed_subs:
  "subscriptions_collection state_subscribed = [\<lparr>sub_user_id = 7, sub_plan = ''professional''\<rparr>]"
  by (simp add: state_subscribed_def)

theorem proai_command_gate_witness:
  "spawned (fst (proai_command env0 (msg alice ''/proai a cat'' 100) state_subscribed))
     = [Generate_proai_task alice ''/proai a cat'' ''a cat'']
   \<and> user_tasks (fst (proai_command env0 (msg alice ''/proai a cat'' 100) state_subscribed)) 7
       = Some 0
   \<and> proai_command env0 (msg alice ''/proai a cat'' 100) state0
       = (state0, [Reply need_redeem])
   \<and> distinct (map sub_user_id (subscriptions_collection state_subscribed))"
  using proai_command_gate [where e = env0 and m = "msg alice ''/proai a cat'' 100"
                              and s = state_subscribed]
    proai_command_gate [where e = env0 and m = "msg alice ''/proai a cat'' 100"
                              and s = state0]
  by (simp add: proai_command_subscribed_run proai_command_unsubscribed_run
        state_subscribed_subs)

section \<open>The task registry\<close>

lemma cancel_with_live:
  assumes "user_tasks s (u_id (from_user m)) = Some h" and "h \<notin> done_tasks s"
  shows "cancel_with canceled no_active m s =
           (s\<lparr>cancel_requested := insert h (cancel_requested s)\<rparr>, [Reply canceled])"
  using assms by (simp add: cancel_with_def Let_def)

lemma cancel_with_none:
  assumes "\<not> (\<exists>h. user_tasks s (u_id (from_user m)) = Some h \<and> h \<notin> done_tasks s)"
  shows "cancel_with canceled no_active m s = (s, [Reply no_active])"
  using assms by (auto simp: cancel_with_def Let_def split: option.splits)

lemma cancel_texts: "ai_canceled \<noteq> ai_no_active" "proai_canceled \<noteq> proai_no_active"
  by (simp_all add: ai_canceled_def ai_no_active_def proai_canceled_def proai_no_active_def)

lemma start_registers:
  assumes "start \<in> {ai_command, proai_command}"
    and "start e m s = (s', tr)" and "spawned s' \<noteq> spawned s"
  shows "(\<exists>c. spawned s' = spawned s @ [c])
       \<and> user_tasks s' = (user_tasks s)(u_id (from_user m) \<mapsto> length (spawned s))
       \<and> done_tasks s' = done_tasks s \<and> cancel_requested s' = cancel_requested s"
  using assms
  by (auto simp: ai_command_def proai_command_def Let_def create_task_def
           split: option.splits if_splits)

text \<open>
  C3. The registry maps a user to one handle. When /ai or /proai starts a task, the
  task is appended to the spawned tasks and the sender's registry entry becomes its
  handle, whatever the entry was before. A cancel command of the same sender issued
  next, with the new task not yet done, signals that handle and answers with the
  canceled reply; a handle registered before and replaced is signalled by it no more
  than it was. In any state, a cancel command answers with the canceled reply iff the
  sender has a registered handle whose task is not done; then cancellation is
  requested for exactly that handle, and otherwise the answer is the no-active reply
  and the state is unchanged. No cancel command changes the registry.
\<close>

theorem task_registry_single_slot:
  "(\<forall>start \<in> {ai_command, proai_command}.
      case start e m s of (s', tr) \<Rightarrow>
        spawned s' \<noteq> spawned s \<longrightarrow>
          (\<exists>c. spawned s' = spawned s @ [c])
          \<and> user_tasks s' = (user_tasks s)(u_id (from_user m) \<mapsto> length (spawned s))
          \<and> (\<forall>(cancel, canceled) \<in> {(cancelai_command, ai_canceled),
                                      (cancelproai_command, proai_canceled)}.
               \<forall>m2. u_id (from_user m2) = u_id (from_user m)
                     \<and> length (spawned s) \<notin> done_tasks s' \<longrightarrow>
                 cancel e m2 s' =
                   (s'\<lparr>cancel_requested := insert (length (spawned s)) (cancel_requested s)\<rparr>,
                    [Reply canceled])
                 \<and> (\<forall>h. user_tasks s (u_id (from_user m)) = Some h
                          \<and> h < length (spawned s) \<longrightarrow>
                        (h \<in> cancel_requested (fst (cancel e m2 s'))
                           \<longleftrightarrow> h \<in> cancel_requested s))))
   \<and> (\<forall>(cancel, canceled, no_active) \<in> {(cancelai_command, ai_canceled, ai_no_active),
                                           (cancelproai_command, proai_canceled, proai_no_active)}.
        case cancel e m s of (s', tr) \<Rightarrow>
          (tr = [Reply canceled] \<longleftrightarrow>
             (\<exists>h. user_tasks s (u_id (from_user m)) = Some h \<and> h \<notin> done_tasks s))
          \<and> (tr \<noteq> [Reply canceled] \<longrightarrow> tr = [Reply no_active] \<and> s' = s)
          \<and> user_tasks s' = user_tasks s
          \<and> (\<forall>h. user_tasks s (u_id (from_user m)) = Some h \<and> h \<notin> done_tasks s \<longrightarrow>
                s' = s\<lparr>cancel_requested := insert h (cancel_requested s)\<rparr>))"
proof (intro conjI ballI)
  fix start assume st: "start \<in> {ai_command, proai_command}"
  show "case start e m s of (s', tr) \<Rightarrow>
        spawned s' \<noteq> spawned s \<longrightarrow>
          (\<exists>c. spawned s' = spawned s @ [c])
          \<and> user_tasks s' = (user_tasks s)(u_id (from_user m) \<mapsto> length (spawned s))
          \<and> (\<forall>(cancel, canceled) \<in> {(cancelai_command, ai_canceled),
                                      (cancelproai_command, proai_canceled)}.
               \<forall>m2. u_id (from_user m2) = u_id (from_user m)
                     \<and> length (spawned s) \<notin> done_tasks s' \<longrightarrow>
                 cancel e m2 s' =
                   (s'\<lparr>cancel_requested := insert (length (spawned s)) (cancel_requested s)\<rparr>,
                    [Reply canceled])
                 \<and> (\<forall>h. user_tasks s (u_id (from_user m)) = Some h
                          \<and> h < length (spawned s) \<longrightarrow>
                        (h \<in> cancel_requested (fst (cancel e m2 s'))
                           \<longleftrightarrow> h \<in> cancel_requested s)))"
  proof (cases "start e m s")
    case (Pair s' tr)
    show ?thesis
    proof (cases "spawned s' = spawned s")
      case True
      then show ?thesis by (simp add: Pair)
    next
      case False
      note r = start_registers [OF st Pair False]
      have "cancel_with canceled no_active m2 s' =
              (s'\<lparr>cancel_requested := insert (length (spawned s)) (cancel_requested s)\<rparr>,
               [Reply canceled])"
        if "u_id (from_user m2) = u_id (from_user m)" "length (spawned s) \<notin> done_tasks s'"
        for m2 canceled no_active
        using cancel_with_live [of s' m2 "length (spawned s)" canceled no_active] r that
        by simp
      then show ?thesis
        using r False by (simp add: Pair cancelai_command_def cancelproai_command_def)
    qed
  qed
next
  fix x assume "x \<in> {(cancelai_command, ai_canceled, ai_no_active),
                     (cancelproai_command, proai_canceled, proai_no_active)}"
  then show "case x of (cancel, canceled, no_active) \<Rightarrow>
          case cancel e m s of (s', tr) \<Rightarrow>
          (tr = [Reply canceled] \<longleftrightarrow>
             (\<exists>h. user_tasks s (u_id (from_user m)) = Some h \<and> h \<notin> done_tasks s))
          \<and> (tr \<noteq> [Reply canceled] \<longrightarrow> tr = [Reply no_active] \<and> s' = s)
          \<and> user_tasks s' = user_tasks s
          \<and> (\<forall>h. user_tasks s (u_id (from_user m)) = Some h \<and> h \<notin> done_tasks s \<longrightarrow>
                s' = s\<lparr>cancel_requested := insert h (cancel_requested s)\<rparr>)"
    by (auto simp: cancelai_command_def cancelproai_command_def cancel_with_def Let_def
          cancel_texts cancel_texts [symmetric] split: option.splits if_splits)
qed


lemma state_after_ai_sel:
  "spawned state_after_ai = [Generate_image_task alice ''/ai a cat'' ''a cat'']"
  "user_tasks state_after_ai = [7 \<mapsto> 0]"
  "done_tasks state_after_ai = {}" "cancel_requested state_after_ai = {}"
  by (simp_all add: state_after_ai_def state0_def)

lemma state_after_second_ai_sel:
  "spawned state_after_second_ai
     = [Generate_image_task alice ''/ai a cat'' ''a cat'',
        Generate_image_task alice ''/ai a dog'' ''a dog'']"
  "user_tasks state_after_second_ai = [7 \<mapsto> 1]"
  "done_tasks state_after_second_ai = {}" "cancel_requested state_after_second_ai = {}"
  by (simp_all add: state_after_second_ai_def state0_def)

lemma ai_command_replacing_run:
  "ai_command env0 (msg alice ''/ai a dog'' 200) state_after_ai
     = (state_after_second_ai, [Reply ''Generating image...''])"
  by (simp add: ai_command_def Let_def create_task_def msg_sel alice_id
        args_of_def split_sp_def state_after_ai_def state_after_second_ai_def state0_def)

lemma cancelai_command_run:
  "cancelai_command env0 (msg alice ''/cancelai'' 201) state_after_second_ai
     = (state_after_second_ai\<lparr>cancel_requested := {1}\<rparr>, [Reply ai_canceled])"
  by (simp add: cancelai_command_def cancel_with_def Let_def msg_sel alice_id
        state_after_second_ai_def state0_def)

lemma cancelproai_command_idle_run:
  "cancelproai_command env0 (msg alice ''/cancelproai'' 201) state0
     = (state0, [Reply proai_no_active])"
  by (simp add: cancelproai_command_def cancel_with_def Let_def msg_sel alice_id state0_def)

theorem task_registry_single_slot_witness:
  "ai_command env0 (msg alice ''/ai a dog'' 200) state_after_ai
     = (state_after_second_ai, [Reply ''Generating image...''])
   \<and> spawned state_after_second_ai \<noteq> spawned state_after_ai
   \<and> user_tasks state_after_ai 7 = Some 0
   \<and> user_tasks state_after_second_ai 7 = Some 1
   \<and> 1 \<notin> done_tasks state_after_second_ai
   \<and> cancelai_command env0 (msg alice ''/cancelai'' 201) state_after_second_ai
       = (state_after_second_ai\<lparr>cancel_requested := {1}\<rparr>, [Reply ai_canceled])
   \<and> 0 \<notin> cancel_requested
            (fst (cancelai_command env0 (msg alice ''/cancelai'' 201) state_after_second_ai))
   \<and> cancelproai_command env0 (msg alice ''/cancelproai'' 201) state0
       = (state0, [Reply proai_no_active])"
  using task_registry_single_slot
      [where e = env0 and m = "msg alice ''/ai a dog'' 200" and s = state_after_ai]
    task_registry_single_slot
      [where e = env0 and m = "msg alice ''/cancelproai'' 201" and s = state0]
  by (simp add: ai_command_replacing_run cancelai_command_run cancelproai_command_idle_run
        state_after_second_ai_sel state_after_ai_sel msg_sel alice_id)

text \<open>
  Every registered handle is the position of a spawned task: this holds at start-up and
  every handler keeps it, so a newly started task never has the handle it replaces.
\<close>

lemma registry_handles_spawned:
  assumes "\<forall>u h. user_tasks s u = Some h \<longrightarrow> h < length (spawned s)"
  shows "\<forall>u h. user_tasks (fst (handler c e m s)) u = Some h
           \<longrightarrow> h < length (spawned (fst (handler c e m s)))"
proof (cases c)
  case Ai
  then show ?thesis
    using assms
    by (auto simp: ai_command_def Let_def create_task_def less_Suc_eq
          split: option.splits if_splits)
next
  case Proai
  then show ?thesis
    using assms
    by (auto simp: proai_command_def Let_def create_task_def less_Suc_eq
          split: option.splits if_splits)
next
  case Modify
  then show ?thesis
    using assms
    by (auto simp: modify_command_def Let_def split: option.splits if_splits prod.splits)
next
  case Redeem
  then show ?thesis
    using assms
    by (auto simp: redeem_command_def Let_def split: option.splits if_splits prod.splits)
qed (use assms in \<open>auto simp: start_command_def help_command_def ask_command_def
      dev_command_def setlogchannel_command_def ping_command_def generate_command_def
      users_command_def broadcast_command_def cancelai_command_def cancelproai_command_def
      cancel_with_def voice_command_def Let_def
      split: option.splits if_splits prod.splits sum.splits\<close>)

section \<open>The multi-step generation flow\<close>

lemma requests_append: "requests (xs @ ys) = requests xs @ requests ys"
  by (induction xs rule: requests.induct) auto

lemma pacing_append: "pacing (xs @ ys) = pacing xs @ pacing ys"
  by (induction xs rule: pacing.induct) auto

lemma requests_pacing: "requests (pacing xs) = requests xs"
  by (induction xs rule: pacing.induct) auto

lemma requests_log_message: "requests (log_message s u i b) = []"
  by (simp add: log_message_def split: option.split)

lemma pacing_log_message: "pacing (log_message s u i b) = []"
  by (simp add: log_message_def split: option.split)

lemma notice_not_logged: "Send_message (Chat_id c) t \<notin> set (log_message s u i b)"
  by (simp add: log_message_def split: option.split)

lemma pacing_generate_image: "pacing (snd (generate_image e p)) = [Request p]"
  by (simp add: generate_image_def split: response.split)

lemma notice_not_generated: "Send_message c t \<notin> set (snd (generate_image e p))"
  by (simp add: generate_image_def split: response.split)

lemma pace_Suc:
  "pace prompt (Suc n) = pace prompt n @ [Request (step_prompt prompt n), Sleep 5]"
  by (simp add: pace_def)

lemma requests_pace: "requests (pace prompt n) = map (step_prompt prompt) [0..<n]"
  by (induction n) (simp_all add: pace_def requests_append)

lemma proai_loop_ok:
  assumes "step_ok e prompt i"
  shows "\<exists>url. proai_loop e user prompt i =
           (Some (Sending_photo i url),
            snd (generate_image e (step_prompt prompt i)) @ [Send_photo (u_id user) url])"
  using assms
  by (cases "generate_image e (step_prompt prompt i)")
     (auto simp: proai_loop_def step_ok_def if_truthy_def truthy_def split: option.splits)

lemma proai_loop_failed:
  assumes "\<not> step_ok e prompt i"
  shows "proai_loop e user prompt i =
           (Some (Sending_notice i),
            snd (generate_image e (step_prompt prompt i))
            @ [Send_message (Chat_id (u_id user)) proai_failure])"
  using assms
  by (cases "generate_image e (step_prompt prompt i)")
     (auto simp: proai_loop_def step_ok_def if_truthy_def)

text \<open>Entering the loop body for index \<open>i\<close> keeps the trace consistent.\<close>

lemma proai_loop_consistent:
  assumes "i < 15" and "\<forall>j<i. step_ok e prompt j" and "pacing T = pace prompt i"
    and "Send_message (Chat_id (u_id user)) proai_failure \<notin> set T"
    and "proai_loop e user prompt i = (nxt, ev)"
  shows "\<exists>at'. nxt = Some at' \<and> consistent P e user user_input prompt (T @ ev) at'"
proof (cases "step_ok e prompt i")
  case True
  from proai_loop_ok [OF True, of user] obtain url where
    u: "proai_loop e user prompt i =
           (Some (Sending_photo i url),
            snd (generate_image e (step_prompt prompt i)) @ [Send_photo (u_id user) url])"
    by blast
  have "\<forall>j\<le>i. step_ok e prompt j"
    using assms(2) True by (auto simp: le_less)
  then show ?thesis
    using assms u
    by (auto simp: consistent_def pacing_append pacing_generate_image notice_not_generated)
next
  case False
  have u: "proai_loop e user prompt i =
           (Some (Sending_notice i),
            snd (generate_image e (step_prompt prompt i))
            @ [Send_message (Chat_id (u_id user)) proai_failure])"
    using proai_loop_failed [OF False] .
  have "Send_message (Chat_id (u_id user)) proai_failure
          \<notin> set (T @ snd (generate_image e (step_prompt prompt i)))"
    using assms(4) by (simp add: notice_not_generated)
  then have "\<exists>pre. T @ ev = pre @ [Send_message (Chat_id (u_id user)) proai_failure]
                 \<and> Send_message (Chat_id (u_id user)) proai_failure \<notin> set pre"
    using assms(5) u
    by (intro exI [of _ "T @ snd (generate_image e (step_prompt prompt i))"]) auto
  then show ?thesis
    using assms u False
    by (auto simp: consistent_def pacing_append pacing_generate_image)
qed

text \<open>One run of the task keeps the trace consistent, or ends the task as finished.\<close>

lemma generate_proai_task_consistent:
  assumes "consistent P e user user_input prompt T at" and "P (LOG_CHANNEL_ID s)"
    and "generate_proai_task e user user_input prompt s at = (nxt, ev)"
  shows "case nxt of
           Some at' \<Rightarrow> consistent P e user user_input prompt (T @ ev) at'
         | None \<Rightarrow> ev = [] \<and> finished P user user_input T at"
proof (cases at)
  case Created
  then have "proai_loop e user prompt 0 = (nxt, ev)" "T = []"
    using assms by (simp_all add: generate_proai_task_def consistent_def)
  from proai_loop_consistent [of 0 e prompt "[]" user nxt ev P user_input] this
  show ?thesis
    by (auto simp: pace_def)
next
  case (Sending_photo i url)
  then show ?thesis
    using assms
    by (auto simp: generate_proai_task_def consistent_def pacing_append pacing_log_message
          pace_Suc notice_not_logged
          dest: arg_cong [where f = pacing] arg_cong [where f = set]
          split: list.splits)
next
  case (Logging_photo i url)
  then show ?thesis
    using assms
    by (auto simp: generate_proai_task_def consistent_def pacing_append pace_Suc)
next
  case (Sleeping i)
  show ?thesis
  proof (cases "Suc i < 15")
    case True
    have c: "i < 15" "\<forall>j\<le>i. step_ok e prompt j" "pacing T = pace prompt (Suc i)"
      "Send_message (Chat_id (u_id user)) proai_failure \<notin> set T"
      using assms(1) Sleeping by (simp_all add: consistent_def)
    have l: "proai_loop e user prompt (Suc i) = (nxt, ev)"
      using assms(3) Sleeping True by (simp add: generate_proai_task_def)
    have "\<forall>j<Suc i. step_ok e prompt j"
      using c(2) by (simp add: less_Suc_eq_le)
    from proai_loop_consistent [OF True this c(3) c(4) l, of P user_input]
    show ?thesis by auto
  next
    case False
    then have "i = 14"
      using assms(1) Sleeping by (simp add: consistent_def)
    then show ?thesis
      using assms Sleeping by (simp add: generate_proai_task_def finished_def)
  qed
next
  case (Sending_notice i)
  from assms(1) Sending_notice obtain pre where
    c: "i < 15" "\<forall>j<i. step_ok e prompt j" "\<not> step_ok e prompt i"
      "pacing T = pace prompt i @ [Request (step_prompt prompt i)]"
      "T = pre @ [Send_message (Chat_id (u_id user)) proai_failure]"
      "Send_message (Chat_id (u_id user)) proai_failure \<notin> set pre"
    by (auto simp: consistent_def)
  show ?thesis
  proof (cases "log_message s user user_input proai_failure")
    case Nil
    then have e: "nxt = None" "ev = []"
      using assms(3) Sending_notice by (simp_all add: generate_proai_task_def)
    have "T = pre @ Send_message (Chat_id (u_id user)) proai_failure
                  # log_message s user user_input proai_failure"
      using c(5) Nil by simp
    then show ?thesis
      using e c(6) assms(2) Sending_notice by (auto simp: finished_def)
  next
    case (Cons line lines)
    then have e: "nxt = Some (Logging_notice i)"
      "ev = log_message s user user_input proai_failure"
      using assms(3) Sending_notice by (simp_all add: generate_proai_task_def)
    have "T @ ev = pre @ Send_message (Chat_id (u_id user)) proai_failure
                  # log_message s user user_input proai_failure"
      using c(5) e by simp
    then show ?thesis
      using e c assms(2)
      by (auto simp: consistent_def pacing_append pacing_log_message)
  qed
next
  case (Logging_notice i)
  then show ?thesis
    using assms
    by (auto simp: generate_proai_task_def consistent_def finished_def)
qed



text \<open>What no handler does to the tasks.\<close>

lemma handler_frame:
  "(\<exists>new. spawned (fst (handler c e m s)) = spawned s @ new)
   \<and> done_tasks (fst (handler c e m s)) = done_tasks s
   \<and> cancel_requested s \<subseteq> cancel_requested (fst (handler c e m s))"
proof (cases c)
  case Ai
  then show ?thesis
    by (auto simp: ai_command_def Let_def create_task_def split: option.splits if_splits)
next
  case Proai
  then show ?thesis
    by (auto simp: proai_command_def Let_def create_task_def split: option.splits if_splits)
next
  case Modify
  then show ?thesis
    by (auto simp: modify_command_def Let_def split: option.splits if_splits prod.splits)
next
  case Redeem
  then show ?thesis
    by (auto simp: redeem_command_def Let_def split: option.splits if_splits prod.splits)
qed (auto simp: start_command_def help_command_def ask_command_def
      dev_command_def setlogchannel_command_def ping_command_def generate_command_def
      users_command_def broadcast_command_def cancelai_command_def cancelproai_command_def
      cancel_with_def voice_command_def Let_def
      split: option.splits if_splits prod.splits sum.splits)

lemma task_events_append:
  "task_events h (xs @ ys) = task_events h xs @ task_events h ys"
  by (simp add: task_events_def)

lemma task_events_own: "task_events h (map (Pair (Task h)) ev) = ev"
  by (induction ev) (simp_all add: task_events_def)

lemma task_events_other: "h' \<noteq> h \<Longrightarrow> task_events h (map (Pair (Task h')) ev) = []"
  by (induction ev) (simp_all add: task_events_def)

lemma task_events_handler: "task_events h (map (Pair Handler) ev) = []"
  by (induction ev) (simp_all add: task_events_def)

lemma task_events_Nil: "task_events h [] = []"
  by (simp add: task_events_def)

lemma resume_other:
  assumes "h' \<noteq> h"
  shows "task_events h (snd (resume e h' out w)) = []
       \<and> snd (fst (resume e h' out w)) h = snd w h
       \<and> spawned (fst (fst (resume e h' out w))) = spawned (fst w)
       \<and> LOG_CHANNEL_ID (fst (fst (resume e h' out w))) = LOG_CHANNEL_ID (fst w)
       \<and> cancel_requested (fst (fst (resume e h' out w))) = cancel_requested (fst w)
       \<and> (h \<in> done_tasks (fst (fst (resume e h' out w))) \<longleftrightarrow> h \<in> done_tasks (fst w))"
  using assms
  by (cases w)
     (auto simp: resume_def Let_def generate_image_task_def task_events_other
        task_events_Nil
        split: coroutine.splits prod.splits option.splits point.splits list.splits)

lemma resume_own:
  assumes "proai_inv P R e h user user_input prompt w T" and "out = Raises \<longrightarrow> R"
  shows "proai_inv P R e h user user_input prompt (fst (resume e h out w))
           (T @ task_events h (snd (resume e h out w)))"
proof (cases w)
  case (Pair s at)
  note inv = assms(1) [unfolded proai_inv_def Pair, simplified]
  show ?thesis
  proof (cases "h \<in> done_tasks s")
    case True
    then show ?thesis
      using assms(1) Pair by (simp add: resume_def task_events_def)
  next
    case False
    show ?thesis
    proof (cases "h \<in> cancel_requested s \<or> (out = Raises \<and> at h \<noteq> Created)")
      case True
      then have "resume e h out w = ((s\<lparr>done_tasks := insert h (done_tasks s)\<rparr>, at), [])"
        using inv False Pair by (auto simp: resume_def)
      then show ?thesis
        using inv True assms(2) by (auto simp: proai_inv_def task_events_def)
    next
      case nocancel: False
      obtain nxt ev where g: "generate_proai_task e user user_input prompt s (at h) = (nxt, ev)"
        by (cases "generate_proai_task e user user_input prompt s (at h)")
      have c: "consistent P e user user_input prompt T (at h)" "P (LOG_CHANNEL_ID s)"
        using inv by simp_all
      note st = generate_proai_task_consistent [OF c g]
      show ?thesis
      proof (cases nxt)
        case None
        then have r: "resume e h out w
                 = ((s\<lparr>done_tasks := insert h (done_tasks s)\<rparr>, at), map (Pair (Task h)) ev)"
          using inv False nocancel Pair g by (auto simp: resume_def)
        show ?thesis
          using st None inv by (simp add: r proai_inv_def task_events_own task_events_Nil)
      next
        case (Some at')
        then have r: "resume e h out w = ((s, at(h := at')), map (Pair (Task h)) ev)"
          using inv False nocancel Pair g by (auto simp: resume_def)
        show ?thesis
          using st Some inv False by (simp add: r proai_inv_def task_events_own)
      qed
    qed
  qed
qed

lemma step_inv:
  assumes "proai_inv P R e h user user_input prompt w T"
    and "a = Resume h Raises \<longrightarrow> R"
    and "(\<forall>c. P c) \<or> (\<exists>h' out. a = Resume h' out)"
  shows "proai_inv P R e h user user_input prompt (fst (step e a w))
           (T @ task_events h (snd (step e a w)))"
proof (cases a)
  case (Deliver c m)
  then have P: "\<forall>c. P c" using assms(3) by simp
  obtain s at where w: "w = (s, at)" by (cases w)
  obtain s' ev where hd: "handler c e m s = (s', ev)" by (cases "handler c e m s")
  from handler_frame [of c e m s] hd obtain new where
    f: "spawned s' = spawned s @ new" "done_tasks s' = done_tasks s"
      "cancel_requested s \<subseteq> cancel_requested s'"
    by auto
  have "step e a w = ((s', at), map (Pair Handler) ev)"
    using Deliver w hd by (simp add: step_def)
  then show ?thesis
    using assms(1) w f P
    by (auto simp: proai_inv_def task_events_handler nth_append)
next
  case (Resume h' out)
  show ?thesis
  proof (cases "h' = h")
    case True
    then show ?thesis
      using assms(1,2) Resume resume_own [of P R e h user user_input prompt w T out]
      by (cases out) (auto simp: step_def)
  next
    case False
    then show ?thesis
      using assms(1) Resume resume_other [OF False, of e out w]
      by (auto simp: step_def proai_inv_def)
  qed
qed

lemma run_inv:
  assumes "proai_inv P R e h user user_input prompt w T"
    and "Resume h Raises \<in> set acts \<longrightarrow> R"
    and "(\<forall>c. P c) \<or> (\<forall>a \<in> set acts. \<exists>h' out. a = Resume h' out)"
  shows "proai_inv P R e h user user_input prompt (fst (run e acts w))
           (T @ task_events h (snd (run e acts w)))"
  using assms
proof (induction acts arbitrary: w T)
  case Nil
  then show ?case by (simp add: task_events_def)
next
  case (Cons a acts)
  obtain w1 ev1 where s1: "step e a w = (w1, ev1)"
    by (cases "step e a w")
  obtain w2 ev2 where s2: "run e acts w1 = (w2, ev2)"
    by (cases "run e acts w1")
  have s: "proai_inv P R e h user user_input prompt w1 (T @ task_events h ev1)"
    using Cons.prems step_inv [of P R e h user user_input prompt w T a] s1 by auto
  have "proai_inv P R e h user user_input prompt (fst (run e acts w1))
          ((T @ task_events h ev1) @ task_events h (snd (run e acts w1)))"
    using Cons.prems by (intro Cons.IH [OF s]) auto
  then show ?case
    by (simp add: s1 s2 task_events_append)
qed

text \<open>What a consistent trace says about the requests, the sleeps and the notice.\<close>

lemma consistent_pacing:
  assumes "consistent P e user user_input prompt T at"
  shows "\<exists>k\<le>15. (\<forall>j<k. step_ok e prompt j)
           \<and> (pacing T = pace prompt k
               \<or> (k < 15 \<and> pacing T = pace prompt k @ [Request (step_prompt prompt k)]))"
proof (cases at)
  case Created
  then have "pacing T = pace prompt 0"
    using assms by (simp add: consistent_def pace_def)
  then show ?thesis by (intro exI [of _ 0]) simp
next
  case (Sending_photo i url)
  then show ?thesis
    using assms by (intro exI [of _ i]) (auto simp: consistent_def)
next
  case (Logging_photo i url)
  then show ?thesis
    using assms by (intro exI [of _ i]) (auto simp: consistent_def)
next
  case (Sleeping i)
  then show ?thesis
    using assms by (intro exI [of _ "Suc i"]) (auto simp: consistent_def less_Suc_eq_le)
next
  case (Sending_notice i)
  then show ?thesis
    using assms by (intro exI [of _ i]) (auto simp: consistent_def)
next
  case (Logging_notice i)
  then show ?thesis
    using assms by (intro exI [of _ i]) (auto simp: consistent_def)
qed

lemma consistent_requests:
  assumes "consistent P e user user_input prompt T at"
  shows "requests T = map (step_prompt prompt) [0..<length (requests T)]
       \<and> length (requests T) \<le> 15"
proof -
  from consistent_pacing [OF assms] obtain k where
    k: "k \<le> 15"
      "pacing T = pace prompt k
       \<or> (k < 15 \<and> pacing T = pace prompt k @ [Request (step_prompt prompt k)])"
    by blast
  have "requests T = requests (pacing T)"
    by (simp add: requests_pacing)
  with k have "requests T = map (step_prompt prompt) [0..<k]
      \<or> (k < 15 \<and> requests T = map (step_prompt prompt) [0..<Suc k])"
    by (auto simp: requests_pace requests_append)
  with k(1) show ?thesis by auto
qed

lemma consistent_count:
  assumes "consistent P e user user_input prompt T at"
  shows "count_list T (Send_message (Chat_id (u_id user)) proai_failure) \<le> 1"
  using assms notice_not_logged [of "u_id user" proai_failure]
  by (cases at) (auto simp: consistent_def)

lemma consistent_failed:
  assumes "consistent P e user user_input prompt T at"
    and "k < length (requests T)" and "\<not> step_ok e prompt k"
  shows "length (requests T) = Suc k
       \<and> count_list T (Send_message (Chat_id (u_id user)) proai_failure) = 1"
proof -
  have r: "requests T = requests (pacing T)"
    by (simp add: requests_pacing)
  show ?thesis
  proof (cases at)
    case Created
    then show ?thesis using assms by (simp add: consistent_def)
  next
    case (Sending_photo i url)
    then have "length (requests T) = Suc i" "\<forall>j\<le>i. step_ok e prompt j"
      using assms(1) r by (simp_all add: consistent_def requests_append requests_pace)
    then show ?thesis using assms(2,3) by auto
  next
    case (Logging_photo i url)
    then have "length (requests T) = Suc i" "\<forall>j\<le>i. step_ok e prompt j"
      using assms(1) r by (simp_all add: consistent_def requests_append requests_pace)
    then show ?thesis using assms(2,3) by auto
  next
    case (Sleeping i)
    then have "length (requests T) = Suc i" "\<forall>j\<le>i. step_ok e prompt j"
      using assms(1) r by (simp_all add: consistent_def requests_pace)
    then show ?thesis using assms(2,3) by auto
  next
    case (Sending_notice i)
    then have l: "length (requests T) = Suc i" "\<forall>j<i. step_ok e prompt j"
      using assms(1) r by (simp_all add: consistent_def requests_append requests_pace)
    then have "k = i" using assms(2,3) by (auto simp: less_Suc_eq)
    moreover have "count_list T (Send_message (Chat_id (u_id user)) proai_failure) = 1"
      using assms(1) Sending_notice by (auto simp: consistent_def)
    ultimately show ?thesis using l by simp
  next
    case (Logging_notice i)
    then have l: "length (requests T) = Suc i" "\<forall>j<i. step_ok e prompt j"
      using assms(1) r by (simp_all add: consistent_def requests_append requests_pace)
    then have "k = i" using assms(2,3) by (auto simp: less_Suc_eq)
    moreover have "count_list T (Send_message (Chat_id (u_id user)) proai_failure) = 1"
      using assms(1) Logging_notice notice_not_logged [of "u_id user" proai_failure]
      by (auto simp: consistent_def)
    ultimately show ?thesis using l by simp
  qed
qed

text \<open>What a finished run has done.\<close>

lemma finished_pacing:
  assumes "consistent P e user user_input prompt T at" and "finished P user user_input T at"
  shows "\<exists>k\<le>15. (\<forall>j<k. step_ok e prompt j) \<and> (k < 15 \<longrightarrow> \<not> step_ok e prompt k)
           \<and> requests T = map (step_prompt prompt) [0..<(if k < 15 then Suc k else 15)]
           \<and> pacing T = pace prompt k @ (if k < 15 then [Request (step_prompt prompt k)] else [])"
proof -
  have r: "requests T = requests (pacing T)"
    by (simp add: requests_pacing)
  consider "at = Sleeping 14" | i where "at = Sending_notice i" | i where "at = Logging_notice i"
    using assms(2) by (auto simp: finished_def)
  then show ?thesis
  proof cases
    case 1
    then have "\<forall>j<15. step_ok e prompt j" "pacing T = pace prompt 15"
      using assms(1) by (auto simp: consistent_def)
    then show ?thesis
      using r by (intro exI [of _ 15]) (simp add: requests_pace)
  next
    case 2
    then show ?thesis
      using assms(1) r
      by (intro exI [of _ i]) (auto simp: consistent_def requests_pace requests_append)
  next
    case 3
    then show ?thesis
      using assms(1) r
      by (intro exI [of _ i]) (auto simp: consistent_def requests_pace requests_append)
  qed
qed

lemma finished_failed:
  assumes "consistent P e user user_input prompt T at" and "finished P user user_input T at"
    and "i < 15" and "\<not> step_ok e prompt i"
  shows "\<exists>k\<le>i. (\<forall>j<k. step_ok e prompt j) \<and> \<not> step_ok e prompt k
           \<and> requests T = map (step_prompt prompt) [0..<Suc k]
           \<and> count_list T (Send_message (Chat_id (u_id user)) proai_failure) = 1
           \<and> (\<exists>pre s'. P (LOG_CHANNEL_ID s')
                 \<and> T = pre @ Send_message (Chat_id (u_id user)) proai_failure
                            # log_message s' user user_input proai_failure)"
proof -
  from finished_pacing [OF assms(1,2)] obtain k where
    k: "k \<le> 15" "\<forall>j<k. step_ok e prompt j" "k < 15 \<longrightarrow> \<not> step_ok e prompt k"
      "requests T = map (step_prompt prompt) [0..<(if k < 15 then Suc k else 15)]"
    by blast
  have ki: "k \<le> i"
    using k(2) assms(4) by (meson not_le)
  then have k15: "k < 15" using assms(3) by simp
  have "k < length (requests T)"
    using k(4) k15 by simp
  from consistent_failed [OF assms(1) this] k(3) k15
  have c: "count_list T (Send_message (Chat_id (u_id user)) proai_failure) = 1"
    by simp
  have "at \<noteq> Sleeping 14"
    using assms(1,3,4) by (auto simp: consistent_def)
  then have "\<exists>pre s'. P (LOG_CHANNEL_ID s')
                 \<and> T = pre @ Send_message (Chat_id (u_id user)) proai_failure
                            # log_message s' user user_input proai_failure"
    using assms(2) by (auto simp: finished_def)
  then show ?thesis
    using ki k(2) k(3) k(4) k15 c by (intro exI [of _ k]) simp
qed

text \<open>A task that runs alone, with every await returning, comes to its end.\<close>

lemma remaining_positive:
  assumes "consistent P e user user_input prompt T at"
  shows "0 < remaining at"
  using assms by (cases at) (auto simp: consistent_def remaining_def)

lemma proai_loop_remaining:
  assumes "proai_loop e user prompt i = (Some at', ev)" and "i < 15"
  shows "remaining at' \<le> 3 * (15 - i)"
proof (cases "step_ok e prompt i")
  case True
  from proai_loop_ok [OF True, of user] assms(1) obtain url where "at' = Sending_photo i url"
    by auto
  then show ?thesis by (simp add: remaining_def)
next
  case False
  then have "at' = Sending_notice i"
    using proai_loop_failed [OF False, of user] assms(1) by simp
  then show ?thesis using assms(2) by (simp add: remaining_def)
qed

lemma generate_proai_task_remaining:
  assumes "consistent P e user user_input prompt T at"
    and "generate_proai_task e user user_input prompt s at = (Some at', ev)"
  shows "remaining at' < remaining at"
proof (cases at)
  case Created
  then have "proai_loop e user prompt 0 = (Some at', ev)"
    using assms(2) by (simp add: generate_proai_task_def)
  from proai_loop_remaining [OF this] Created show ?thesis
    by (simp add: remaining_def)
next
  case (Sleeping i)
  then have l: "Suc i < 15" "proai_loop e user prompt (Suc i) = (Some at', ev)"
    using assms(2) by (auto simp: generate_proai_task_def split: if_splits)
  from proai_loop_remaining [OF l(2) l(1)] l(1) Sleeping show ?thesis
    by (simp add: remaining_def)
qed (use assms in \<open>auto simp: generate_proai_task_def consistent_def remaining_def
       split: list.splits\<close>)

lemma resume_frame:
  "spawned (fst (fst (resume e h out w))) = spawned (fst w)
   \<and> LOG_CHANNEL_ID (fst (fst (resume e h out w))) = LOG_CHANNEL_ID (fst w)
   \<and> cancel_requested (fst (fst (resume e h out w))) = cancel_requested (fst w)
   \<and> done_tasks (fst w) \<subseteq> done_tasks (fst (fst (resume e h out w)))"
  by (cases w)
     (auto simp: resume_def Let_def generate_image_task_def
        split: coroutine.splits prod.splits option.splits point.splits list.splits)

lemma resume_progress:
  assumes "proai_inv P R e h user user_input prompt w T"
    and "h \<notin> done_tasks (fst w)" and "h \<notin> cancel_requested (fst w)"
  shows "h \<in> done_tasks (fst (fst (resume e h Returns w)))
       \<or> remaining (snd (fst (resume e h Returns w)) h) < remaining (snd w h)"
proof (cases w)
  case (Pair s at)
  note inv = assms(1) [unfolded proai_inv_def Pair, simplified]
  obtain nxt ev where g: "generate_proai_task e user user_input prompt s (at h) = (nxt, ev)"
    by (cases "generate_proai_task e user user_input prompt s (at h)")
  show ?thesis
  proof (cases nxt)
    case None
    then show ?thesis
      using inv assms(2,3) Pair g by (simp add: resume_def)
  next
    case (Some at')
    have "remaining at' < remaining (at h)"
      using generate_proai_task_remaining [of P e user user_input prompt T "at h" s at' ev]
        inv g Some by simp
    then show ?thesis
      using inv assms(2,3) Pair g Some by (simp add: resume_def)
  qed
qed

lemma run_Cons:
  "fst (run e (a # acts) w) = fst (run e acts (fst (step e a w)))"
  "snd (run e (a # acts) w) = snd (step e a w) @ snd (run e acts (fst (step e a w)))"
  by (simp_all split: prod.splits)

lemma step_done_mono: "done_tasks (fst w) \<subseteq> done_tasks (fst (fst (step e a w)))"
proof (cases a)
  case (Deliver c m)
  then show ?thesis
    using handler_frame [of c e m "fst w"] by (cases w) (auto simp: step_def split: prod.splits)
next
  case (Resume h out)
  then show ?thesis
    using resume_frame [of e h out w] by (simp add: step_def)
qed

lemma run_done_mono: "done_tasks (fst w) \<subseteq> done_tasks (fst (fst (run e acts w)))"
proof (induction acts arbitrary: w)
  case Nil
  show ?case by simp
next
  case (Cons a acts)
  show ?case
    using step_done_mono [of w e a] Cons [of "fst (step e a w)"]
    by (auto simp: run_Cons simp del: run.simps)
qed

lemma alone_done:
  assumes "proai_inv P False e h user user_input prompt w T"
    and "h \<notin> cancel_requested (fst w)" and "remaining (snd w h) \<le> n"
  shows "h \<in> done_tasks (fst (fst (run e (replicate n (Resume h Returns)) w)))"
  using assms
proof (induction n arbitrary: w T)
  case 0
  then show ?case
    using remaining_positive [of P e user user_input prompt T "snd w h"]
    by (simp add: proai_inv_def)
next
  case (Suc n)
  let ?w1 = "fst (resume e h Returns w)"
  let ?T1 = "T @ task_events h (snd (resume e h Returns w))"
  have i1: "proai_inv P False e h user user_input prompt ?w1 ?T1"
    using resume_own [OF Suc.prems(1), of Returns] by simp
  have c1: "h \<notin> cancel_requested (fst ?w1)"
    using Suc.prems(2) resume_frame [of e h Returns w] by simp
  have u: "fst (run e (replicate (Suc n) (Resume h Returns)) w)
             = fst (run e (replicate n (Resume h Returns)) ?w1)"
    by (simp add: run_Cons step_def del: run.simps)
  have "h \<in> done_tasks (fst ?w1) \<or> remaining (snd ?w1 h) \<le> n"
  proof (cases "h \<in> done_tasks (fst w)")
    case True
    then show ?thesis using resume_frame [of e h Returns w] by auto
  next
    case False
    from resume_progress [OF Suc.prems(1) False Suc.prems(2)] Suc.prems(3)
    show ?thesis by auto
  qed
  then show ?case
  proof
    assume "h \<in> done_tasks (fst ?w1)"
    then show ?thesis
      using run_done_mono [of ?w1 e "replicate n (Resume h Returns)"] u by auto
  next
    assume "remaining (snd ?w1 h) \<le> n"
    from Suc.IH [OF i1 c1 this] show ?thesis
      using u by simp
  qed
qed

lemma log_message_channel:
  "LOG_CHANNEL_ID s' = LOG_CHANNEL_ID s \<Longrightarrow> log_message s' u i b = log_message s u i b"
  by (simp add: log_message_def)

lemma alone_cancel:
  "cancel_requested (fst (fst (run e (replicate n (Resume h out)) w)))
     = cancel_requested (fst w)"
proof (induction n arbitrary: w)
  case 0
  show ?case by simp
next
  case (Suc n)
  show ?case
    using Suc [of "fst (resume e h out w)"] resume_frame [of e h out w]
    by (simp add: run_Cons step_def del: run.simps)
qed

lemma fresh_inv:
  assumes "h < length (spawned s0)"
    and "spawned s0 ! h = Generate_proai_task user user_input prompt"
    and "at0 h = Created" and "h \<notin> done_tasks s0" and "P (LOG_CHANNEL_ID s0)"
  shows "proai_inv P R e h user user_input prompt (s0, at0) []"
  using assms by (simp add: proai_inv_def consistent_def)

text \<open>The multi-step task in any run of the event loop.\<close>

lemma proai_run_any:
  assumes "h < length (spawned s0)"
    and "spawned s0 ! h = Generate_proai_task user user_input prompt"
    and "at0 h = Created" and "h \<notin> done_tasks s0"
    and "run e acts (s0, at0) = ((s, at), tr)"
  shows "consistent (\<lambda>c. True) e user user_input prompt (task_events h tr) (at h)"
    and "Resume h Raises \<notin> set acts \<Longrightarrow> h \<in> done_tasks s \<Longrightarrow> h \<notin> cancel_requested s
           \<Longrightarrow> finished (\<lambda>c. True) user user_input (task_events h tr) (at h)"
proof -
  have "proai_inv (\<lambda>c. True) True e h user user_input prompt (s0, at0) []"
    using assms(1-4) by (intro fresh_inv) simp_all
  from run_inv [OF this, of acts] assms(5)
  show "consistent (\<lambda>c. True) e user user_input prompt (task_events h tr) (at h)"
    by (simp add: proai_inv_def)
  assume a: "Resume h Raises \<notin> set acts" "h \<in> done_tasks s" "h \<notin> cancel_requested s"
  have "proai_inv (\<lambda>c. True) False e h user user_input prompt (s0, at0) []"
    using assms(1-4) by (intro fresh_inv) simp_all
  from run_inv [OF this, of acts] assms(5) a
  show "finished (\<lambda>c. True) user user_input (task_events h tr) (at h)"
    by (simp add: proai_inv_def)
qed

text \<open>The multi-step task run alone, every await returning, for long enough.\<close>

lemma proai_run_alone:
  assumes "h < length (spawned s0)"
    and "spawned s0 ! h = Generate_proai_task user user_input prompt"
    and "at0 h = Created" and "h \<notin> done_tasks s0"
    and "h \<notin> cancel_requested s0" and "46 \<le> n"
    and "run e (replicate n (Resume h Returns)) (s0, at0) = ((s, at), tr)"
  shows "h \<in> done_tasks s \<and> h \<notin> cancel_requested s
       \<and> consistent (\<lambda>c. c = LOG_CHANNEL_ID s0) e user user_input prompt (task_events h tr) (at h)
       \<and> finished (\<lambda>c. c = LOG_CHANNEL_ID s0) user user_input (task_events h tr) (at h)"
proof -
  have i: "proai_inv (\<lambda>c. c = LOG_CHANNEL_ID s0) False e h user user_input prompt (s0, at0) []"
    using assms(1-4) by (intro fresh_inv) simp_all
  have d: "h \<in> done_tasks s"
    using alone_done [OF i, of n] assms(3,5,6,7) by (simp add: remaining_def)
  have c: "h \<notin> cancel_requested s"
    using alone_cancel [of e n h Returns "(s0, at0)"] assms(5,7) by simp
  have "proai_inv (\<lambda>c. c = LOG_CHANNEL_ID s0) False e h user user_input prompt (s, at)
          (task_events h tr)"
    using run_inv [OF i, of "replicate n (Resume h Returns)"] assms(7) by auto
  then show ?thesis
    using d c by (simp add: proai_inv_def)
qed

text \<open>
  C4. For a multi-step task that has been spawned and has not run yet, in every run of
  the event loop (whatever handlers and other tasks run in between, whether awaits
  return or raise, whether the task is cancelled or not): the task requests the steps
  in order, each once and at most 15 of them; it sends the failure notice at most once;
  and as soon as a requested step has failed, that step is the last one requested and
  the notice has been sent exactly once, so nothing is retried and no step follows the
  failing one. When the task has come to its end without being cancelled and without
  one of its awaits raising, and some step fails, the requests are exactly the steps up
  to and including the first failing one, and the calls of the task end with the one
  notice and its log line. Run alone with every await returning, the task has ended
  after 46 resumptions, with that same outcome.
\<close>

theorem proai_stops_at_first_failure:
  assumes "h < length (spawned s0)"
    and "spawned s0 ! h = Generate_proai_task user user_input prompt"
    and "at0 h = Created" and "h \<notin> done_tasks s0"
  shows "(\<forall>acts. case run e acts (s0, at0) of ((s, at), tr) \<Rightarrow>
        requests (task_events h tr)
          = map (step_prompt prompt) [0..<length (requests (task_events h tr))]
      \<and> length (requests (task_events h tr)) \<le> 15
      \<and> count_list (task_events h tr) (Send_message (Chat_id (u_id user)) proai_failure) \<le> 1
      \<and> (\<forall>k<length (requests (task_events h tr)). \<not> step_ok e prompt k \<longrightarrow>
            length (requests (task_events h tr)) = Suc k
            \<and> count_list (task_events h tr)
                 (Send_message (Chat_id (u_id user)) proai_failure) = 1)
      \<and> (h \<in> done_tasks s \<and> h \<notin> cancel_requested s \<and> Resume h Raises \<notin> set acts \<longrightarrow>
           (\<forall>i<15. \<not> step_ok e prompt i \<longrightarrow>
              (\<exists>k\<le>i. (\<forall>j<k. step_ok e prompt j) \<and> \<not> step_ok e prompt k
                 \<and> requests (task_events h tr) = map (step_prompt prompt) [0..<Suc k]
                 \<and> count_list (task_events h tr)
                      (Send_message (Chat_id (u_id user)) proai_failure) = 1
                 \<and> (\<exists>pre s'. task_events h tr
                       = pre @ Send_message (Chat_id (u_id user)) proai_failure
                             # log_message s' user user_input proai_failure)))))
   \<and> (\<forall>n\<ge>46. h \<notin> cancel_requested s0 \<longrightarrow>
        (case run e (replicate n (Resume h Returns)) (s0, at0) of ((s, at), tr) \<Rightarrow>
           h \<in> done_tasks s
         \<and> (\<forall>i<15. \<not> step_ok e prompt i \<longrightarrow>
              (\<exists>k\<le>i. (\<forall>j<k. step_ok e prompt j) \<and> \<not> step_ok e prompt k
                 \<and> requests (task_events h tr) = map (step_prompt prompt) [0..<Suc k]
                 \<and> count_list (task_events h tr)
                      (Send_message (Chat_id (u_id user)) proai_failure) = 1
                 \<and> (\<exists>pre. task_events h tr
                       = pre @ Send_message (Chat_id (u_id user)) proai_failure
                             # log_message s0 user user_input proai_failure)))))"
proof (intro conjI allI impI)
  fix acts
  obtain s at tr where r: "run e acts (s0, at0) = ((s, at), tr)"
    by (metis prod.exhaust)
  note c = proai_run_any(1) [OF assms r]
  have f: "finished (\<lambda>c. True) user user_input (task_events h tr) (at h)"
    if "h \<in> done_tasks s" "h \<notin> cancel_requested s" "Resume h Raises \<notin> set acts"
    using proai_run_any(2) [OF assms r] that by simp
  have "\<exists>k\<le>i. (\<forall>j<k. step_ok e prompt j) \<and> \<not> step_ok e prompt k
                 \<and> requests (task_events h tr) = map (step_prompt prompt) [0..<Suc k]
                 \<and> count_list (task_events h tr)
                      (Send_message (Chat_id (u_id user)) proai_failure) = 1
                 \<and> (\<exists>pre s'. task_events h tr
                       = pre @ Send_message (Chat_id (u_id user)) proai_failure
                             # log_message s' user user_input proai_failure)"
    if "h \<in> done_tasks s" "h \<notin> cancel_requested s" "Resume h Raises \<notin> set acts"
      "i < 15" "\<not> step_ok e prompt i" for i
    using finished_failed [OF c f [OF that(1-3)] that(4,5)] by auto
  then show "case run e acts (s0, at0) of ((s, at), tr) \<Rightarrow>
        requests (task_events h tr)
          = map (step_prompt prompt) [0..<length (requests (task_events h tr))]
      \<and> length (requests (task_events h tr)) \<le> 15
      \<and> count_list (task_events h tr) (Send_message (Chat_id (u_id user)) proai_failure) \<le> 1
      \<and> (\<forall>k<length (requests (task_events h tr)). \<not> step_ok e prompt k \<longrightarrow>
            length (requests (task_events h tr)) = Suc k
            \<and> count_list (task_events h tr)
                 (Send_message (Chat_id (u_id user)) proai_failure) = 1)
      \<and> (h \<in> done_tasks s \<and> h \<notin> cancel_requested s \<and> Resume h Raises \<notin> set acts \<longrightarrow>
           (\<forall>i<15. \<not> step_ok e prompt i \<longrightarrow>
              (\<exists>k\<le>i. (\<forall>j<k. step_ok e prompt j) \<and> \<not> step_ok e prompt k
                 \<and> requests (task_events h tr) = map (step_prompt prompt) [0..<Suc k]
                 \<and> count_list (task_events h tr)
                      (Send_message (Chat_id (u_id user)) proai_failure) = 1
                 \<and> (\<exists>pre s'. task_events h tr
                       = pre @ Send_message (Chat_id (u_id user)) proai_failure
                             # log_message s' user user_input proai_failure))))"
    using consistent_requests [OF c] consistent_count [OF c] consistent_failed [OF c]
    by (simp add: r)
next
  fix n :: nat
  assume n: "46 \<le> n" and nc: "h \<notin> cancel_requested s0"
  obtain s at tr where r: "run e (replicate n (Resume h Returns)) (s0, at0) = ((s, at), tr)"
    by (metis prod.exhaust)
  note a = proai_run_alone [OF assms nc n r]
  have "\<exists>k\<le>i. (\<forall>j<k. step_ok e prompt j) \<and> \<not> step_ok e prompt k
                 \<and> requests (task_events h tr) = map (step_prompt prompt) [0..<Suc k]
                 \<and> count_list (task_events h tr)
                      (Send_message (Chat_id (u_id user)) proai_failure) = 1
                 \<and> (\<exists>pre. task_events h tr
                       = pre @ Send_message (Chat_id (u_id user)) proai_failure
                             # log_message s0 user user_input proai_failure)"
    if "i < 15" "\<not> step_ok e prompt i" for i
  proof -
    from finished_failed [of "\<lambda>c. c = LOG_CHANNEL_ID s0" e user user_input prompt
        "task_events h tr" "at h" i] a that
    obtain k pre s' where k: "k \<le> i" "\<forall>j<k. step_ok e prompt j" "\<not> step_ok e prompt k"
      "requests (task_events h tr) = map (step_prompt prompt) [0..<Suc k]"
      "count_list (task_events h tr) (Send_message (Chat_id (u_id user)) proai_failure) = 1"
      "LOG_CHANNEL_ID s' = LOG_CHANNEL_ID s0"
      "task_events h tr = pre @ Send_message (Chat_id (u_id user)) proai_failure
                             # log_message s' user user_input proai_failure"
      by blast
    have "task_events h tr = pre @ Send_message (Chat_id (u_id user)) proai_failure
                             # log_message s0 user user_input proai_failure"
      using k(7) log_message_channel [OF k(6)] by simp
    then show ?thesis using k(1-5) by blast
  qed
  then show "case run e (replicate n (Resume h Returns)) (s0, at0) of ((s, at), tr) \<Rightarrow>
           h \<in> done_tasks s
         \<and> (\<forall>i<15. \<not> step_ok e prompt i \<longrightarrow>
              (\<exists>k\<le>i. (\<forall>j<k. step_ok e prompt j) \<and> \<not> step_ok e prompt k
                 \<and> requests (task_events h tr) = map (step_prompt prompt) [0..<Suc k]
                 \<and> count_list (task_events h tr)
                      (Send_message (Chat_id (u_id user)) proai_failure) = 1
                 \<and> (\<exists>pre. task_events h tr
                       = pre @ Send_message (Chat_id (u_id user)) proai_failure
                             # log_message s0 user user_input proai_failure)))"
    using a by (simp add: r)
qed


lemma step_ok_env_failing:
  "step_ok env_failing ''a cat'' 0" "step_ok env_failing ''a cat'' (Suc 0)"
  "\<not> step_ok env_failing ''a cat'' 2"
  by (simp_all add: step_ok_def generate_image_def env_failing_def env0_def truthy_def
        step_prompt_def str_nat.simps)

lemma state_proai_started_sel:
  "spawned state_proai_started = [Generate_proai_task alice ''/proai a cat'' ''a cat'']"
  "done_tasks state_proai_started = {}"
  "cancel_requested state_proai_started = {}"
  "LOG_CHANNEL_ID state_proai_started = None"
  "user_tasks state_proai_started = [7 \<mapsto> 0]"
  by (simp_all add: state_proai_started_def state_subscribed_def state0_def)

theorem proai_stops_at_first_failure_witness:
  "0 < length (spawned state_proai_started)
   \<and> spawned state_proai_started ! 0 = Generate_proai_task alice ''/proai a cat'' ''a cat''
   \<and> all_created 0 = Created
   \<and> 0 \<notin> done_tasks state_proai_started
   \<and> 0 \<notin> cancel_requested state_proai_started
   \<and> \<not> step_ok env_failing ''a cat'' 2
   \<and> (case run env_failing (replicate 46 (Resume 0 Returns)) (state_proai_started, all_created)
       of ((s, at), tr) \<Rightarrow>
         0 \<in> done_tasks s
       \<and> requests (task_events 0 tr)
           = [''a cat (image 1 improving each time)'', ''a cat (image 2 improving each time)'',
              ''a cat (image 3 improving each time)'']
       \<and> count_list (task_events 0 tr) (Send_message (Chat_id 7) proai_failure) = 1
       \<and> last (task_events 0 tr) = Send_message (Chat_id 7) proai_failure)"
proof -
  have f: "0 < length (spawned state_proai_started)"
    "spawned state_proai_started ! 0 = Generate_proai_task alice ''/proai a cat'' ''a cat''"
    "all_created 0 = Created" "0 \<notin> done_tasks state_proai_started"
    by (simp_all add: state_proai_started_sel all_created_def)
  have nc: "0 \<notin> cancel_requested state_proai_started"
    by (simp add: state_proai_started_sel)
  obtain s at tr where
    r: "run env_failing (replicate 46 (Resume 0 Returns)) (state_proai_started, all_created)
          = ((s, at), tr)"
    by (metis prod.exhaust)
  from proai_stops_at_first_failure
      [where h = 0 and ?s0.0 = state_proai_started and ?at0.0 = all_created and user = alice
         and user_input = "''/proai a cat''" and prompt = "''a cat''" and e = env_failing,
       OF f]
    nc r step_ok_env_failing(3)
  have d: "0 \<in> done_tasks s"
    and "\<exists>k\<le>2. (\<forall>j<k. step_ok env_failing ''a cat'' j) \<and> \<not> step_ok env_failing ''a cat'' k
           \<and> requests (task_events 0 tr) = map (step_prompt ''a cat'') [0..<Suc k]
           \<and> count_list (task_events 0 tr) (Send_message (Chat_id (u_id alice)) proai_failure) = 1
           \<and> (\<exists>pre. task_events 0 tr
                 = pre @ Send_message (Chat_id (u_id alice)) proai_failure
                       # log_message state_proai_started alice ''/proai a cat'' proai_failure)"
    by auto
  then obtain k pre where k: "k \<le> 2" "\<not> step_ok env_failing ''a cat'' k"
    "requests (task_events 0 tr) = map (step_prompt ''a cat'') [0..<Suc k]"
    "count_list (task_events 0 tr) (Send_message (Chat_id (u_id alice)) proai_failure) = 1"
    "task_events 0 tr
       = pre @ Send_message (Chat_id (u_id alice)) proai_failure
             # log_message state_proai_started alice ''/proai a cat'' proai_failure"
    by blast
  have "k = 0 \<or> k = Suc 0 \<or> k = 2" using k(1) by arith
  then have k2: "k = 2" using k(2) step_ok_env_failing(1,2) by auto
  have three: "[0..<3] = [0, 1, 2]" by code_simp
  have req: "requests (task_events 0 tr)
           = [''a cat (image 1 improving each time)'', ''a cat (image 2 improving each time)'',
              ''a cat (image 3 improving each time)'']"
    using k(3) by (simp add: k2 three step_prompt_def str_nat.simps)
  have l: "last (task_events 0 tr) = Send_message (Chat_id 7) proai_failure"
    using k(5) by (simp add: log_message_def state_proai_started_sel alice_id)
  show ?thesis
    using f nc step_ok_env_failing(3) d req k(4) l by (simp add: r alice_id)
qed



lemma cancelproai_args: "args_of ''/cancelproai'' = []"
  by (simp add: args_of_def split_sp_def)



section \<open>Broadcasting\<close>

lemma recipients_append: "recipients t (xs @ ys) = recipients t xs @ recipients t ys"
  by (induction t xs rule: recipients.induct) auto

lemma logged_errors_append: "logged_errors (xs @ ys) = logged_errors xs @ logged_errors ys"
  by (induction xs rule: logged_errors.induct) auto

lemma replies_append: "replies (xs @ ys) = replies xs @ replies ys"
  by (induction xs rule: replies.induct) auto

lemma logged_errors_log_message: "logged_errors (log_message s u i b) = []"
  by (simp add: log_message_def Let_def split: option.split)

lemma replies_log_message: "replies (log_message s u i b) = []"
  by (simp add: log_message_def Let_def split: option.split)

lemma recipients_broadcast_loop: "recipients t (broadcast_loop e t rs) = rs"
  by (induction rs) (auto simp: recipients_append split: option.splits)

lemma replies_broadcast_loop: "replies (broadcast_loop e t rs) = []"
  by (induction rs) (auto simp: replies_append split: option.splits)

lemma logged_errors_broadcast_loop:
  "logged_errors (broadcast_loop e t rs) =
     concat (map (\<lambda>r. case send_error e r t of
                          None \<Rightarrow> []
                        | Some x \<Rightarrow> [''Error sending message to '' @ str_int r @ '': '' @ x])
                 rs)"
  by (induction rs) (auto simp: logged_errors_append split: option.splits)

text \<open>
  C9. When the owner sends /broadcast with a non-empty text, the text is sent once to
  every user of the users collection and then to every group of the groups collection,
  in order, whether or not earlier deliveries raised; each delivery that raises is
  logged with \<^verbatim>\<open>log.error\<close> and nothing else happens for it; the state is unchanged;
  and the handler's one reply, after all deliveries, is \<open>Broadcast message sent.\<close>
  followed by its log line.
\<close>

theorem broadcast_command_tolerates_failures:
  assumes "u_id (from_user m) = BOT_OWNER_ID e"
    and "join_sp (args_of (msg_text m)) = t" and "t \<noteq> []"
  shows "(case broadcast_command e m s of (s', tr) \<Rightarrow>
      s' = s
    \<and> recipients t tr
        = map doc_user_id (users_collection s) @ map doc_group_id (groups_collection s)
    \<and> logged_errors tr
        = concat (map (\<lambda>r. case send_error e r t of
                            None \<Rightarrow> []
                          | Some x \<Rightarrow> [''Error sending message to '' @ str_int r @ '': '' @ x])
                   (map doc_user_id (users_collection s)
                    @ map doc_group_id (groups_collection s)))
    \<and> replies tr = [broadcast_sent]
    \<and> (\<exists>pre. tr = pre @ Reply broadcast_sent
                    # log_message s (from_user m) (msg_text m) broadcast_sent))"
  using assms
  by (simp add: broadcast_command_def is_owner_def Let_def recipients_append
        logged_errors_append replies_append recipients_broadcast_loop
        replies_broadcast_loop logged_errors_broadcast_loop recipients_log_message
        logged_errors_log_message replies_log_message)

lemma broadcast_args: "join_sp (args_of ''/broadcast hello'') = ''hello''"
  by (simp add: args_of_def split_sp_def)

lemma broadcast_command_run:
  "broadcast_command env_blocked (msg boss ''/broadcast hello'' 100) state_with_audience
     = (state_with_audience,
        [Send_message (Chat_id 7) ''hello'',
         Log_error ''Error sending message to 7: blocked'',
         Send_message (Chat_id (- 100)) ''hello'',
         Reply broadcast_sent])"
  by (simp add: broadcast_command_def is_owner_def Let_def broadcast_args msg_sel boss_id
        env_blocked_def env0_def state_with_audience_def state0_def log_message_def
        str_int_def str_nat.simps)

theorem broadcast_command_tolerates_failures_witness:
  "u_id (from_user (msg boss ''/broadcast hello'' 100)) = BOT_OWNER_ID env_blocked
   \<and> join_sp (args_of (msg_text (msg boss ''/broadcast hello'' 100))) = ''hello''
   \<and> send_error env_blocked 7 ''hello'' = Some ''blocked''
   \<and> recipients ''hello''
        (snd (broadcast_command env_blocked (msg boss ''/broadcast hello'' 100)
                state_with_audience)) = [7, - 100]
   \<and> logged_errors
        (snd (broadcast_command env_blocked (msg boss ''/broadcast hello'' 100)
                state_with_audience)) = [''Error sending message to 7: blocked'']
   \<and> replies
        (snd (broadcast_command env_blocked (msg boss ''/broadcast hello'' 100)
                state_with_audience)) = [broadcast_sent]"
proof -
  have a: "u_id (from_user (msg boss ''/broadcast hello'' 100)) = BOT_OWNER_ID env_blocked"
    by (simp add: msg_sel boss_id env_blocked_def env0_def)
  have b: "join_sp (args_of (msg_text (msg boss ''/broadcast hello'' 100))) = ''hello''"
    by (simp add: msg_sel broadcast_args)
  have c: "''hello'' \<noteq> []"
    by simp
  have d: "send_error env_blocked 7 ''hello'' = Some ''blocked''"
    by (simp add: env_blocked_def)
  show ?thesis
    using a b d broadcast_command_tolerates_failures [OF a b c, of state_with_audience]
    by (simp add: broadcast_command_run)
qed

section \<open>Refusals leave the state alone\<close>

lemma args_single: "length args = 1 \<Longrightarrow> args = [hd args]"
  by (cases args) auto

text \<open>
  C8, as the handlers have it. When a handler turns a message down (see \<open>refusal\<close>),
  its only reply is the refusal text, no collection is written and no task is started:
  the state is unchanged, except that /ai, which examines the prompt after the cooldown
  check has recorded the time, has set the sender's rate-limit timestamp to the
  message's time. Apart from /cancelai and /cancelproai, which never log and output
  the reply alone, the reply is followed by its log line, which goes to the log channel
  when one is configured; before the reply there is at most the fetch of the replied-to
  photo's url by /modify.
\<close>

theorem refusals_short_circuit:
  assumes "refusal c e m s = Some r"
  shows "case handler c e m s of (s', tr) \<Rightarrow>
      replies tr = [r]
    \<and> s' = (if c = Ai
            then s\<lparr>last_ai_use := (last_ai_use s)(u_id (from_user m) \<mapsto> date m)\<rparr>
            else s)
    \<and> (if c \<in> {Cancelai, Cancelproai} then tr = [Reply r]
       else (\<exists>pre. tr = pre @ Reply r # log_message s (from_user m) (msg_text m) r
                   \<and> (pre = [] \<or> (\<exists>f. pre = [Get_file_url f])))
            \<and> (\<forall>ch. LOG_CHANNEL_ID s = Some ch \<and> ch \<noteq> [] \<longrightarrow>
                   log_message s (from_user m) (msg_text m) r
                     = [Send_message (Chat_name ch)
                          (log_text (from_user m) (msg_text m) r)]))"
proof (cases c)
  case Ai
  then show ?thesis
    using assms
    by (auto simp: refusal_def ai_command_def Let_def replies_log_message log_message_def
          split: option.splits if_splits)
next
  case Proai
  then show ?thesis
    using assms
    by (auto simp: refusal_def proai_command_def Let_def replies_log_message log_message_def
          split: option.splits if_splits)
next
  case Modify
  then show ?thesis
    using assms
    by (auto simp: refusal_def modify_command_def Let_def replies_log_message log_message_def
          split: option.splits if_splits)
next
  case Ask
  then show ?thesis
    using assms
    by (auto simp: refusal_def ask_command_def Let_def replies_log_message log_message_def
          split: option.splits if_splits)
next
  case Setlogchannel
  then show ?thesis
    using assms
    by (auto simp: refusal_def setlogchannel_command_def Let_def replies_log_message
          log_message_def split: option.splits if_splits)
next
  case Generate
  then show ?thesis
    using assms
    by (auto simp: refusal_def generate_command_def Let_def replies_log_message log_message_def
          split: option.splits if_splits)
next
  case Redeem
  show ?thesis
  proof (cases "length (args_of (msg_text m)) = 1")
    case True
    then have a: "args_of (msg_text m) = [hd (args_of (msg_text m))]"
      by (rule args_single)
    have b: "hd (args_of (msg_text m)) \<notin> gift_code ` set (gift_codes_collection s)"
      and r: "r = redeem_invalid"
      using assms Redeem True by (auto simp: refusal_def Let_def split: if_splits)
    show ?thesis
      using redeem_command_absent [OF a b, of e] Redeem r
      by (auto simp: replies_log_message log_message_def split: option.splits)
  next
    case False
    then show ?thesis
      using assms Redeem
      by (auto simp: refusal_def redeem_command_def Let_def replies_log_message
            log_message_def split: option.splits if_splits)
  qed
next
  case Users
  then show ?thesis
    using assms
    by (auto simp: refusal_def users_command_def Let_def replies_log_message log_message_def
          split: option.splits if_splits)
next
  case Broadcast
  then show ?thesis
    using assms
    by (auto simp: refusal_def broadcast_command_def Let_def replies_log_message
          log_message_def split: option.splits if_splits)
next
  case Voice
  then show ?thesis
    using assms
    by (auto simp: refusal_def voice_command_def Let_def replies_log_message log_message_def
          split: option.splits if_splits)
next
  case Cancelai
  then show ?thesis
    using assms
    by (auto simp: refusal_def cancelai_command_def cancel_with_def Let_def
          split: option.splits if_splits)
next
  case Cancelproai
  then show ?thesis
    using assms
    by (auto simp: refusal_def cancelproai_command_def cancel_with_def Let_def
          split: option.splits if_splits)
qed (use assms in \<open>simp_all add: refusal_def\<close>)


lemma state_logged_sel:
  "LOG_CHANNEL_ID state_logged = Some ''-1001''" "last_ai_use state_logged = Map.empty"
  "user_tasks state_logged = Map.empty"
  by (simp_all add: state_logged_def state0_def)

lemma ai_command_no_prompt_run:
  "ai_command env0 (msg alice ''/ai'' 100) state_logged
     = (state_logged\<lparr>last_ai_use := [7 \<mapsto> 100]\<rparr>,
        [Reply ai_usage, Send_message (Chat_name ''-1001'') (log_text alice ''/ai'' ai_usage)])"
  by (simp add: ai_command_def Let_def msg_sel alice_id args_of_def split_sp_def
        state_logged_sel log_message_def)

lemma ai_refusal_no_prompt:
  "refusal Ai env0 (msg alice ''/ai'' 100) state_logged = Some ai_usage"
  by (simp add: refusal_def Let_def msg_sel alice_id args_of_def split_sp_def state_logged_sel)

lemma generate_command_refused_run:
  "generate_command env0 (msg alice ''/generate'' 100) state_logged
     = (state_logged,
        [Reply no_permission,
         Send_message (Chat_name ''-1001'') (log_text alice ''/generate'' no_permission)])"
  by (simp add: generate_command_def is_owner_def Let_def msg_sel alice_id env0_def
        state_logged_sel log_message_def)

lemma generate_refusal:
  "refusal Generate env0 (msg alice ''/generate'' 100) state_logged = Some no_permission"
  by (simp add: refusal_def is_owner_def Let_def msg_sel alice_id env0_def)

lemma cancelai_command_idle_run:
  "cancelai_command env0 (msg alice ''/cancelai'' 100) state_logged
     = (state_logged, [Reply ai_no_active])"
  by (simp add: cancelai_command_def cancel_with_def Let_def msg_sel alice_id state_logged_sel)

lemma cancelai_refusal:
  "refusal Cancelai env0 (msg alice ''/cancelai'' 100) state_logged = Some ai_no_active"
  by (simp add: refusal_def Let_def msg_sel alice_id state_logged_sel)

theorem refusals_short_circuit_witness:
  "refusal Ai env0 (msg alice ''/ai'' 100) state_logged = Some ai_usage
   \<and> handler Ai env0 (msg alice ''/ai'' 100) state_logged
       = (state_logged\<lparr>last_ai_use := [7 \<mapsto> 100]\<rparr>,
          [Reply ai_usage,
           Send_message (Chat_name ''-1001'') (log_text alice ''/ai'' ai_usage)])
   \<and> refusal Generate env0 (msg alice ''/generate'' 100) state_logged = Some no_permission
   \<and> handler Generate env0 (msg alice ''/generate'' 100) state_logged
       = (state_logged,
          [Reply no_permission,
           Send_message (Chat_name ''-1001'') (log_text alice ''/generate'' no_permission)])
   \<and> refusal Cancelai env0 (msg alice ''/cancelai'' 100) state_logged = Some ai_no_active
   \<and> handler Cancelai env0 (msg alice ''/cancelai'' 100) state_logged
       = (state_logged, [Reply ai_no_active])"
  using refusals_short_circuit [OF ai_refusal_no_prompt]
    refusals_short_circuit [OF generate_refusal]
    refusals_short_circuit [OF cancelai_refusal]
  by (simp add: ai_refusal_no_prompt generate_refusal cancelai_refusal
        ai_command_no_prompt_run generate_command_refused_run cancelai_command_idle_run)

text \<open>
  /ai without a prompt, from a sender with no recorded timestamp, is answered with the
  missing-prompt text and still records the timestamp; and /cancelai with nothing to
  cancel is answered with no log line although a log channel is configured.
\<close>

theorem refusal_after_timestamp_counterexample:
  "refusal Ai env0 (msg alice ''/ai'' 100) state_logged = Some ai_usage
   \<and> replies (snd (handler Ai env0 (msg alice ''/ai'' 100) state_logged)) = [ai_usage]
   \<and> last_ai_use state_logged 7 = None
   \<and> last_ai_use (fst (handler Ai env0 (msg alice ''/ai'' 100) state_logged)) 7 = Some 100
   \<and> fst (handler Ai env0 (msg alice ''/ai'' 100) state_logged) \<noteq> state_logged
   \<and> refusal Cancelai env0 (msg alice ''/cancelai'' 100) state_logged = Some ai_no_active
   \<and> LOG_CHANNEL_ID state_logged = Some ''-1001''
   \<and> snd (handler Cancelai env0 (msg alice ''/cancelai'' 100) state_logged)
       = [Reply ai_no_active]"
proof -
  have "last_ai_use (state_logged\<lparr>last_ai_use := [7 \<mapsto> 100]\<rparr>) 7 \<noteq> last_ai_use state_logged 7"
    by (simp add: state_logged_sel)
  then have "state_logged\<lparr>last_ai_use := [7 \<mapsto> 100]\<rparr> \<noteq> state_logged"
    by metis
  then show ?thesis
    by (simp add: ai_refusal_no_prompt cancelai_refusal ai_command_no_prompt_run
          cancelai_command_idle_run state_logged_sel)
qed

end
